theory Spec2Isabelle
  imports Complex_Main "HOL-Library.Sublist"
begin

section \<open>The game state of \<^verbatim>\<open>src/app/page.tsx\<close>\<close>

text \<open>
  The page keeps one \<^verbatim>\<open>GameState\<close> object in a React state cell. Counters (level,
  experience, health, mana, resources, damage) only ever hold integers: they start at
  integer literals and are changed by adding, subtracting and flooring integers, so
  they are modelled as \<open>int\<close>. Positions and times are JavaScript numbers that take
  fractional values and are modelled as \<open>real\<close> (rounding of doubles is not modelled).

  A handler defined in the body of the component reads \<^verbatim>\<open>gameState\<close>, the value of the
  state cell at the render that created the handler, and writes through
  \<^verbatim>\<open>setGameState((prev) => ...)\<close>, whose argument is applied to the value of the cell at
  the moment of the update. Both are explicit below: \<open>gs\<close> is what the closure captured,
  \<open>prev\<close> is what the updater receives.
\<close>

datatype resource = diamonds | emeralds | gold | iron | redstone | wood

record Inventory =
  inv_diamonds :: int
  inv_emeralds :: int
  inv_gold :: int
  inv_iron :: int
  inv_redstone :: int
  inv_wood :: int

record Equipment =
  weapon :: string
  armor :: string
  shield :: string

type_synonym vec3 = "real \<times> real \<times> real"

record GameState =
  level :: int
  experience :: int
  health :: int
  maxHealth :: int
  mana :: int
  maxMana :: int
  inventory :: Inventory
  equipment :: Equipment
  unlockedSections :: "string list"
  isInBattle :: bool
  dragonHealth :: int
  maxDragonHealth :: int
  playerPosition :: vec3
  dragonPosition :: vec3
  isAttacking :: bool
  isDodging :: bool
  lastAttackTime :: real
  invulnerable :: bool

text \<open>The argument of \<^verbatim>\<open>useState<GameState>\<close> in \<^verbatim>\<open>Portfolio\<close>.\<close>

definition initialGameState :: GameState where
  "initialGameState =
     \<lparr> level = 1, experience = 0, health = 100, maxHealth = 100, mana = 50, maxMana = 50,
       inventory = \<lparr> inv_diamonds = 0, inv_emeralds = 0, inv_gold = 0, inv_iron = 0,
                     inv_redstone = 0, inv_wood = 0 \<rparr>,
       equipment = \<lparr> weapon = ''Wooden Sword'', armor = ''Leather Armor'', shield = '''' \<rparr>,
       unlockedSections = [], isInBattle = False,
       dragonHealth = 1000, maxDragonHealth = 1000,
       playerPosition = (0, 0, 0), dragonPosition = (0, 15, -10),
       isAttacking = False, isDodging = False, lastAttackTime = 0, invulnerable = False \<rparr>"

subsection \<open>Experience and levels\<close>

text \<open>
  \<^verbatim>\<open>gainExperience\<close>: the whole body is one updater on \<open>prev\<close>. \<^verbatim>\<open>Math.floor(newExp / 1000)\<close>
  on an integer is \<open>div\<close>, which rounds towards minus infinity as \<^verbatim>\<open>Math.floor\<close> does.
  The particle effect it also switches on is presentation only.
\<close>

definition gainExperience :: "int \<Rightarrow> GameState \<Rightarrow> GameState" where
  "gainExperience amount prev =
     (let newExp = experience prev + amount;
          newLevel = newExp div 1000 + 1;
          leveledUp = (newLevel > level prev)
      in prev\<lparr> experience := newExp,
               level := newLevel,
               maxHealth := (if leveledUp then maxHealth prev + 20 else maxHealth prev),
               health := (if leveledUp then maxHealth prev + 20 else health prev),
               maxMana := (if leveledUp then maxMana prev + 10 else maxMana prev),
               mana := (if leveledUp then maxMana prev + 10 else mana prev) \<rparr>)"

subsection \<open>Unlocking sections\<close>

text \<open>\<^verbatim>\<open>unlockSection\<close> spreads the old array and appends the section.\<close>

definition unlockSection :: "string \<Rightarrow> GameState \<Rightarrow> GameState" where
  "unlockSection section prev = prev\<lparr> unlockedSections := unlockedSections prev @ [section] \<rparr>"

text \<open>
  The four unlock buttons carry \<^verbatim>\<open>disabled={gameState.unlockedSections.includes(...)}\<close>:
  a click reaches \<^verbatim>\<open>unlockSection\<close> only while the section is not in the list of the
  render that drew the button. A disabled button does nothing.
\<close>

definition unlockButton :: "string \<Rightarrow> GameState \<Rightarrow> GameState" where
  "unlockButton section gs =
     (if section \<in> set (unlockedSections gs) then gs else unlockSection section gs)"

fun unlockAll :: "string list \<Rightarrow> GameState \<Rightarrow> GameState" where
  "unlockAll [] s = s"
| "unlockAll (x # xs) s = unlockAll xs (unlockSection x s)"

fun clickAll :: "string list \<Rightarrow> GameState \<Rightarrow> GameState" where
  "clickAll [] s = s"
| "clickAll (x # xs) s = clickAll xs (unlockButton x s)"

text \<open>\<^verbatim>\<open>readyForBattle\<close>, computed at every render.\<close>

definition readyForBattle :: "GameState \<Rightarrow> bool" where
  "readyForBattle gs \<longleftrightarrow> length (unlockedSections gs) \<ge> 4 \<and> level gs \<ge> 5"

subsection \<open>Crafting\<close>

text \<open>
  A cost is a \<^verbatim>\<open>Partial<GameState["inventory"]>\<close>: an object with some of the six keys.
  \<^verbatim>\<open>Object.keys(cost)\<close> lists the keys that are present; \<^verbatim>\<open>cost[key] || 0\<close> reads one.
\<close>

type_synonym cost = "resource \<rightharpoonup> int"

definition all_resources :: "resource list" where
  "all_resources = [diamonds, emeralds, gold, iron, redstone, wood]"

definition keys :: "cost \<Rightarrow> resource list" where
  "keys c = filter (\<lambda>k. c k \<noteq> None) all_resources"

definition cost_of :: "cost \<Rightarrow> resource \<Rightarrow> int" where
  "cost_of c k = (case c k of None \<Rightarrow> 0 | Some v \<Rightarrow> v)"

fun inv_get :: "Inventory \<Rightarrow> resource \<Rightarrow> int" where
  "inv_get i diamonds = inv_diamonds i"
| "inv_get i emeralds = inv_emeralds i"
| "inv_get i gold = inv_gold i"
| "inv_get i iron = inv_iron i"
| "inv_get i redstone = inv_redstone i"
| "inv_get i wood = inv_wood i"

fun inv_set :: "Inventory \<Rightarrow> resource \<Rightarrow> int \<Rightarrow> Inventory" where
  "inv_set i diamonds v = i\<lparr> inv_diamonds := v \<rparr>"
| "inv_set i emeralds v = i\<lparr> inv_emeralds := v \<rparr>"
| "inv_set i gold v = i\<lparr> inv_gold := v \<rparr>"
| "inv_set i iron v = i\<lparr> inv_iron := v \<rparr>"
| "inv_set i redstone v = i\<lparr> inv_redstone := v \<rparr>"
| "inv_set i wood v = i\<lparr> inv_wood := v \<rparr>"

text \<open>\<^verbatim>\<open>item.includes(needle)\<close>: the needle occurs as a contiguous run of characters.\<close>

fun str_includes :: "string \<Rightarrow> string \<Rightarrow> bool" where
  "str_includes [] needle = (needle = [])"
| "str_includes (c # cs) needle = (prefix needle (c # cs) \<or> str_includes cs needle)"

text \<open>
  \<^verbatim>\<open>craftEquipment\<close>: \<^verbatim>\<open>canCraft\<close> reads the inventory of the closure (\<open>gs\<close>); the updater
  subtracts every listed cost from the inventory of \<open>prev\<close> (the \<^verbatim>\<open>reduce\<close> builds the
  new entries from \<open>prev\<close>, the spread writes them over it) and replaces the equipment
  slots whose keyword the item name contains; then \<^verbatim>\<open>gainExperience(100)\<close> queues its
  own updater, applied after the first.
\<close>

definition canCraft :: "GameState \<Rightarrow> cost \<Rightarrow> bool" where
  "canCraft gs c \<longleftrightarrow> list_all (\<lambda>k. inv_get (inventory gs) k \<ge> cost_of c k) (keys c)"

definition deduct :: "Inventory \<Rightarrow> cost \<Rightarrow> Inventory" where
  "deduct i c = fold (\<lambda>k acc. inv_set acc k (inv_get i k - cost_of c k)) (keys c) i"

definition craftUpdate :: "string \<Rightarrow> cost \<Rightarrow> GameState \<Rightarrow> GameState" where
  "craftUpdate item c prev =
     prev\<lparr> inventory := deduct (inventory prev) c,
           equipment := (equipment prev)
             \<lparr> weapon := (if str_includes item ''Sword'' then item else weapon (equipment prev)),
               armor := (if str_includes item ''Armor'' then item else armor (equipment prev)),
               shield := (if str_includes item ''Shield'' then item else shield (equipment prev)) \<rparr> \<rparr>"

definition craftEquipment :: "GameState \<Rightarrow> string \<Rightarrow> cost \<Rightarrow> GameState \<Rightarrow> GameState" where
  "craftEquipment gs item c prev =
     (if canCraft gs c then gainExperience 100 (craftUpdate item c prev) else prev)"

section \<open>Combat\<close>

datatype attack_type = fireball | breath | charge | aoe

text \<open>
  \<^verbatim>\<open>DragonAttack\<close>. The id is the string \<^verbatim>\<open>attack_${Date.now()}\<close>, only ever compared for
  equality; it is modelled by the millisecond count it is built from. Times and
  durations are in milliseconds.
\<close>

record DragonAttack =
  attack_id :: int
  attack_type :: attack_type
  position :: vec3
  target :: vec3
  startTime :: real
  duration :: real
  damage :: int

text \<open>
  The distance the three checks of the page compute in line:
  \<^verbatim>\<open>Math.sqrt(Math.pow(p[0] - q[0], 2) + Math.pow(p[2] - q[2], 2))\<close>.
\<close>

fun planar_distance :: "vec3 \<Rightarrow> vec3 \<Rightarrow> real" where
  "planar_distance (px, py, pz) (qx, qy, qz) = sqrt ((px - qx)\<^sup>2 + (pz - qz)\<^sup>2)"

subsection \<open>Timers\<close>

text \<open>
  \<^verbatim>\<open>setTimeout(f, d)\<close> called at time \<open>now\<close> arms a one-shot callback due at \<open>now + d\<close>;
  nothing in the page ever clears one. The page arms three kinds of callback. The one
  armed by \<^verbatim>\<open>handleDragonAttack\<close> mentions \<^verbatim>\<open>gameState\<close> and \<^verbatim>\<open>handlePlayerHit\<close>, so it
  carries the game state of the render that created it.
\<close>

datatype timer_action =
    ResetAttacking
  | ResetInvulnerable
  | ExpireAttack GameState DragonAttack

record System =
  game :: GameState
  dragonAttacks :: "DragonAttack list"
  timers :: "(real \<times> timer_action) list"

definition initialSystem :: System where
  "initialSystem = \<lparr> game = initialGameState, dragonAttacks = [], timers = [] \<rparr>"

definition setTimeout :: "real \<Rightarrow> timer_action \<Rightarrow> real \<Rightarrow> System \<Rightarrow> System" where
  "setTimeout now f d sys = sys\<lparr> timers := timers sys @ [(now + d, f)] \<rparr>"

subsection \<open>The player is hit\<close>

definition hitUpdate :: "int \<Rightarrow> GameState \<Rightarrow> GameState" where
  "hitUpdate dmg prev = prev\<lparr> health := max 0 (health prev - dmg), invulnerable := True \<rparr>"

definition handlePlayerHit :: "GameState \<Rightarrow> real \<Rightarrow> int \<Rightarrow> System \<Rightarrow> System" where
  "handlePlayerHit gs now dmg sys =
     (if invulnerable gs then sys
      else setTimeout now ResetInvulnerable 1000 (sys\<lparr> game := hitUpdate dmg (game sys) \<rparr>))"

subsection \<open>The player attacks\<close>

definition attackDamage :: "GameState \<Rightarrow> int" where
  "attackDamage gs =
     level gs * 10 + (if weapon (equipment gs) = ''Diamond Sword'' then 50 else 20)"

definition handlePlayerAttack :: "GameState \<Rightarrow> real \<Rightarrow> System \<Rightarrow> System" where
  "handlePlayerAttack gs now sys =
     (if now - lastAttackTime gs < 500 then sys
      else
        let g1 = (game sys)\<lparr> isAttacking := True, lastAttackTime := now \<rparr>;
            distance = planar_distance (playerPosition gs) (dragonPosition gs);
            g2 = (if distance < 8
                  then g1\<lparr> dragonHealth := max 0 (dragonHealth g1 - attackDamage gs) \<rparr>
                  else g1)
        in setTimeout now ResetAttacking 300 (sys\<lparr> game := g2 \<rparr>))"

subsection \<open>The dragon attacks\<close>

definition handleDragonAttack :: "GameState \<Rightarrow> real \<Rightarrow> DragonAttack \<Rightarrow> System \<Rightarrow> System" where
  "handleDragonAttack gs now attack sys =
     setTimeout now (ExpireAttack gs attack) (duration attack)
       (sys\<lparr> dragonAttacks := dragonAttacks sys @ [attack] \<rparr>)"

text \<open>What each armed callback does when it runs, at time \<open>now\<close>.\<close>

fun run_timer :: "real \<Rightarrow> timer_action \<Rightarrow> System \<Rightarrow> System" where
  "run_timer now ResetAttacking sys = sys\<lparr> game := (game sys)\<lparr> isAttacking := False \<rparr> \<rparr>"
| "run_timer now ResetInvulnerable sys = sys\<lparr> game := (game sys)\<lparr> invulnerable := False \<rparr> \<rparr>"
| "run_timer now (ExpireAttack gs attack) sys =
     (let sys1 = sys\<lparr> dragonAttacks :=
                        filter (\<lambda>a. attack_id a \<noteq> attack_id attack) (dragonAttacks sys) \<rparr>
      in if attack_type attack = aoe
            \<and> planar_distance (playerPosition gs) (target attack) < 3
         then handlePlayerHit gs now (damage attack) sys1
         else sys1)"

text \<open>
  The event loop runs the pending callback that is due first (the one armed first
  among equals), at its due time.
\<close>

fun earliest :: "(real \<times> timer_action) list \<Rightarrow> nat" where
  "earliest [] = 0"
| "earliest [t] = 0"
| "earliest (t # ts) =
     (let i = earliest ts in if fst (ts ! i) < fst t then Suc i else 0)"

definition fire :: "System \<Rightarrow> System" where
  "fire sys =
     (case timers sys of
        [] \<Rightarrow> sys
      | _ \<Rightarrow>
          let i = earliest (timers sys);
              (due, f) = timers sys ! i
          in run_timer due f
               (sys\<lparr> timers := take i (timers sys) @ drop (Suc i) (timers sys) \<rparr>))"

subsection \<open>Buttons of the battle section\<close>

definition startBattle :: "GameState \<Rightarrow> GameState" where
  "startBattle prev = prev\<lparr> isInBattle := True, playerPosition := (0, 0, 0) \<rparr>"

text \<open>The updater of the \<^verbatim>\<open>Try Again\<close> button.\<close>

definition tryAgain :: "GameState \<Rightarrow> GameState" where
  "tryAgain prev =
     prev\<lparr> health := maxHealth prev, isInBattle := False, dragonHealth := maxDragonHealth prev \<rparr>"

text \<open>
  \<^verbatim>\<open>addToInventory\<close> adds every listed amount to the inventory of \<open>prev\<close>. (Two call
  sites pass a reward object that also has an \<^verbatim>\<open>experience\<close> entry, which ends up as an
  extra key of the inventory object; no resource count depends on it, and it is left out.)
\<close>

definition addToInventory :: "cost \<Rightarrow> GameState \<Rightarrow> GameState" where
  "addToInventory items prev =
     prev\<lparr> inventory :=
             fold (\<lambda>k acc. inv_set acc k (inv_get (inventory prev) k + cost_of items k))
               (keys items) (inventory prev) \<rparr>"

subsection \<open>The dragon's attack scheduler\<close>



definition patterns :: "attack_type list" where
  "patterns = [fireball, breath, aoe, charge]"

definition newAttack :: "nat \<Rightarrow> vec3 \<Rightarrow> vec3 \<Rightarrow> real \<Rightarrow> int \<Rightarrow> real \<Rightarrow> DragonAttack" where
  "newAttack cursor mesh player clock dateNow rnd =
     (let attackType = patterns ! (cursor mod length patterns)
      in \<lparr> attack_id = dateNow,
           attack_type = attackType,
           position = mesh,
           target = player,
           startTime = clock * 1000,
           duration = (if attackType = fireball then 2000
                       else if attackType = aoe then 3000 else 1500),
           damage = 20 + \<lfloor>rnd * 10\<rfloor> \<rparr>)"


subsection \<open>Fireballs\<close>

text \<open>
  \<^verbatim>\<open>Fireball\<close> has one state cell, \<^verbatim>\<open>hasHit\<close>. Its frame callback, at clock time
  \<open>clock\<close> (seconds), moves the mesh and may call \<^verbatim>\<open>onHit\<close>.
\<close>

definition fireball_progress :: "DragonAttack \<Rightarrow> real \<Rightarrow> real" where
  "fireball_progress attack clock =
     (let elapsed = (clock * 1000 - startTime attack) / 1000
      in min (elapsed / (duration attack / 1000)) 1)"

definition fireball_position :: "DragonAttack \<Rightarrow> real \<Rightarrow> vec3" where
  "fireball_position attack clock =
     (let progress = fireball_progress attack clock;
          (sx, sy, sz) = position attack;
          (tx, ty, tz) = target attack
      in (sx + (tx - sx) * progress, sy + (ty - sy) * progress, sz + (tz - sz) * progress))"

definition fireball_collides :: "DragonAttack \<Rightarrow> real \<Rightarrow> bool" where
  "fireball_collides attack clock \<longleftrightarrow>
     planar_distance (fireball_position attack clock) (target attack) < 1.5
     \<and> fireball_progress attack clock > 0.8"

text \<open>New value of \<^verbatim>\<open>hasHit\<close> and the argument of the \<^verbatim>\<open>onHit\<close> call, if one is made.\<close>

definition fireball_frame :: "DragonAttack \<Rightarrow> real \<Rightarrow> bool \<Rightarrow> bool \<times> int option" where
  "fireball_frame attack clock hasHit =
     (if \<not> hasHit \<and> fireball_collides attack clock
      then (True, Some (damage attack))
      else (hasHit, None))"

text \<open>The frames of one fireball in order: the \<^verbatim>\<open>onHit\<close> calls with their frame times.\<close>

fun fireball_frames :: "DragonAttack \<Rightarrow> real list \<Rightarrow> bool \<Rightarrow> bool \<times> (real \<times> int) list" where
  "fireball_frames attack [] hasHit = (hasHit, [])"
| "fireball_frames attack (clock # rest) hasHit =
     (case fireball_frame attack clock hasHit of
        (h, None) \<Rightarrow> fireball_frames attack rest h
      | (h, Some dmg) \<Rightarrow>
          (let (h', calls) = fireball_frames attack rest h in (h', (clock, dmg) # calls)))"

text \<open>The component renders nothing once \<^verbatim>\<open>hasHit\<close> is set.\<close>

definition fireball_rendered :: "bool \<Rightarrow> bool" where
  "fireball_rendered hasHit \<longleftrightarrow> \<not> hasHit"

text \<open>
  \<^verbatim>\<open>Scene\<close> maps the active attacks to components: a \<^verbatim>\<open>Fireball\<close> for a fireball, an
  \<^verbatim>\<open>AOEIndicator\<close> (which never calls back) for an aoe, nothing for the rest. So a
  frame of an attack is a frame of its fireball, or nothing.
\<close>

definition scene_attack_frame :: "DragonAttack \<Rightarrow> real \<Rightarrow> bool \<Rightarrow> bool \<times> int option" where
  "scene_attack_frame attack clock hasHit =
     (if attack_type attack = fireball then fireball_frame attack clock hasHit
      else (hasHit, None))"

subsection \<open>Runs of the page\<close>

text \<open>
  The states the page can be in: every step is one of its handlers, called from the
  latest render (clicks, key presses and frame callbacks), or a pending timer running.
  Experience amounts are the constants of the call sites, all positive; a fireball's
  \<^verbatim>\<open>onHit\<close> passes the damage of an active attack.
\<close>

inductive reachable :: "System \<Rightarrow> bool" where
  r_init: "reachable initialSystem"
| r_gain: "reachable sys \<Longrightarrow> 0 \<le> amount
     \<Longrightarrow> reachable (sys\<lparr> game := gainExperience amount (game sys) \<rparr>)"
| r_add: "reachable sys \<Longrightarrow> reachable (sys\<lparr> game := addToInventory items (game sys) \<rparr>)"
| r_unlock: "reachable sys \<Longrightarrow> reachable (sys\<lparr> game := unlockButton s (game sys) \<rparr>)"
| r_craft: "reachable sys
     \<Longrightarrow> reachable (sys\<lparr> game := craftEquipment (game sys) item c (game sys) \<rparr>)"
| r_start: "reachable sys \<Longrightarrow> readyForBattle (game sys) \<Longrightarrow> \<not> isInBattle (game sys)
     \<Longrightarrow> reachable (sys\<lparr> game := startBattle (game sys) \<rparr>)"
| r_retry: "reachable sys \<Longrightarrow> readyForBattle (game sys) \<Longrightarrow> isInBattle (game sys)
     \<Longrightarrow> \<not> dragonHealth (game sys) \<le> 0 \<Longrightarrow> health (game sys) \<le> 0
     \<Longrightarrow> reachable (sys\<lparr> game := tryAgain (game sys) \<rparr>)"
| r_dodge: "reachable sys \<Longrightarrow> reachable (sys\<lparr> game := (game sys)\<lparr> isDodging := b \<rparr> \<rparr>)"
| r_attack: "reachable sys \<Longrightarrow> reachable (handlePlayerAttack (game sys) now sys)"
| r_dragon: "reachable sys \<Longrightarrow> 0 \<le> rnd \<Longrightarrow> rnd < 1
     \<Longrightarrow> reachable (handleDragonAttack (game sys) now
           (newAttack cursor mesh (playerPosition (game sys)) clock dateNow rnd) sys)"
| r_fireball: "reachable sys \<Longrightarrow> a \<in> set (dragonAttacks sys) \<Longrightarrow> attack_type a = fireball
     \<Longrightarrow> reachable (handlePlayerHit (game sys) now (damage a) sys)"
| r_timer: "reachable sys \<Longrightarrow> reachable (fire sys)"

text \<open>Health and dragon health lie between zero and their maxima.\<close>

definition in_bounds :: "GameState \<Rightarrow> bool" where
  "in_bounds g \<longleftrightarrow>
     0 \<le> health g \<and> health g \<le> maxHealth g
     \<and> 0 \<le> dragonHealth g \<and> dragonHealth g \<le> maxDragonHealth g"

subsection \<open>Inputs used as examples\<close>

text \<open>
  The cost the crafting table passes for the iron sword,
  \<^verbatim>\<open>craftEquipment("Iron Sword", { iron: 5, wood: 2 })\<close>, and the initial state with five
  iron and two wood in the inventory.
\<close>

definition ironSwordCost :: cost where
  "ironSwordCost = [iron \<mapsto> 5, wood \<mapsto> 2]"

definition stocked :: GameState where
  "stocked = initialGameState
     \<lparr> inventory := (inventory initialGameState)\<lparr> inv_iron := 5, inv_wood := 2 \<rparr> \<rparr>"

subsection \<open>What every run maintains\<close>

text \<open>
  The damage of an attack the dragon made is never negative, wherever the attack is
  kept: in the list of active attacks or in a pending expiry callback.
\<close>

fun timer_ok :: "timer_action \<Rightarrow> bool" where
  "timer_ok (ExpireAttack gs attack) \<longleftrightarrow> 0 \<le> damage attack"
| "timer_ok _ \<longleftrightarrow> True"

definition run_invariant :: "System \<Rightarrow> bool" where
  "run_invariant sys \<longleftrightarrow>
     in_bounds (game sys) \<and> 0 \<le> experience (game sys) \<and> 1 \<le> level (game sys)
     \<and> (\<forall>a \<in> set (dragonAttacks sys). 0 \<le> damage a)
     \<and> (\<forall>t \<in> set (timers sys). timer_ok (snd t))"


definition aoeAtOrigin :: DragonAttack where
  "aoeAtOrigin = newAttack 2 (0, 15, -10) (0, 0, 0) 0 0 0.5"

definition fireballAtOrigin :: DragonAttack where
  "fireballAtOrigin = newAttack 0 (0, 15, -10) (0, 0, 0) 1 1000 0"

definition breathAtOrigin :: DragonAttack where
  "breathAtOrigin = newAttack 1 (0, 15, -10) (0, 0, 0) 0 0 0.5"

text \<open>
  A run in which an aoe is launched at time 0 and a fireball at time 1000 (both from
  the latest render), the fireball's frame at clock 2.8 s calls \<^verbatim>\<open>onHit\<close>, and then the
  callback that is due first runs: the expiry of the aoe, due at 3000.
\<close>

definition aoeLaunched :: System where
  "aoeLaunched = handleDragonAttack (game initialSystem) 0 aoeAtOrigin initialSystem"

definition fireballLaunched :: System where
  "fireballLaunched = handleDragonAttack (game aoeLaunched) 1000 fireballAtOrigin aoeLaunched"

definition fireballHit :: System where
  "fireballHit =
     (case snd (fireball_frame fireballAtOrigin 2.8 False) of
        None \<Rightarrow> fireballLaunched
      | Some dmg \<Rightarrow> handlePlayerHit (game fireballLaunched) 2800 dmg fireballLaunched)"

definition aoeExpired :: System where
  "aoeExpired = fire fireballHit"

subsection \<open>Steps of a run\<close>

text \<open>
  The same events as a relation between the state before and the state after: one
  rule for each rule of \<open>reachable\<close>. A run is a chain of steps from the initial state.
\<close>

inductive step :: "System \<Rightarrow> System \<Rightarrow> bool" where
  s_gain: "0 \<le> amount \<Longrightarrow> step sys (sys\<lparr> game := gainExperience amount (game sys) \<rparr>)"
| s_add: "step sys (sys\<lparr> game := addToInventory items (game sys) \<rparr>)"
| s_unlock: "step sys (sys\<lparr> game := unlockButton section (game sys) \<rparr>)"
| s_craft: "step sys (sys\<lparr> game := craftEquipment (game sys) item cst (game sys) \<rparr>)"
| s_start: "readyForBattle (game sys) \<Longrightarrow> \<not> isInBattle (game sys)
     \<Longrightarrow> step sys (sys\<lparr> game := startBattle (game sys) \<rparr>)"
| s_retry: "readyForBattle (game sys) \<Longrightarrow> isInBattle (game sys)
     \<Longrightarrow> \<not> dragonHealth (game sys) \<le> 0 \<Longrightarrow> health (game sys) \<le> 0
     \<Longrightarrow> step sys (sys\<lparr> game := tryAgain (game sys) \<rparr>)"
| s_dodge: "step sys (sys\<lparr> game := (game sys)\<lparr> isDodging := b \<rparr> \<rparr>)"
| s_attack: "step sys (handlePlayerAttack (game sys) now sys)"
| s_dragon: "0 \<le> rnd \<Longrightarrow> rnd < 1
     \<Longrightarrow> step sys (handleDragonAttack (game sys) now
           (newAttack cursor origin (playerPosition (game sys)) clock dateNow rnd) sys)"
| s_fireball: "attack \<in> set (dragonAttacks sys) \<Longrightarrow> attack_type attack = fireball
     \<Longrightarrow> step sys (handlePlayerHit (game sys) now (damage attack) sys)"
| s_timer: "step sys (fire sys)"

subsection \<open>The character on screen\<close>

text \<open>
  \<^verbatim>\<open>Character\<close> draws the player as a group whose \<^verbatim>\<open>position\<close> prop is
  \<^verbatim>\<open>gameState.playerPosition\<close>, and moves that group itself in its frame callback. Its
  own state cells are the four movement flags (\<^verbatim>\<open>movement.w\<close>, \<^verbatim>\<open>.a\<close>, \<^verbatim>\<open>.s\<close>, \<^verbatim>\<open>.d\<close>),
  \<^verbatim>\<open>isMoving\<close> and \<^verbatim>\<open>direction\<close>; the position of the group on screen is kept with them
  here. The renderer writes a prop to the group only when the prop changes, and the
  prop is the same point in every render, so between frames the group stays where the
  last frame put it.
\<close>

record Movement =
  move_w :: bool
  move_a :: bool
  move_s :: bool
  move_d :: bool

record Character =
  meshPosition :: vec3
  movement :: Movement
  isMoving :: bool
  direction :: real

definition initialCharacter :: Character where
  "initialCharacter =
     \<lparr> meshPosition = (0, 0, 0),
       movement = \<lparr> move_w = False, move_a = False, move_s = False, move_d = False \<rparr>,
       isMoving = False, direction = 0 \<rparr>"

text \<open>
  One frame of \<^verbatim>\<open>Character\<close>, for a render with game state \<open>gs\<close> (its props
  \<^verbatim>\<open>position\<close>, \<^verbatim>\<open>isInBattle\<close>, \<^verbatim>\<open>isDodging\<close>): the character after the frame and the
  argument of the \<^verbatim>\<open>onMove\<close> call, if one is made.
\<close>

definition characterFrame ::
  "GameState \<Rightarrow> real \<Rightarrow> real \<Rightarrow> Character \<Rightarrow> Character \<times> vec3 option" where
  "characterFrame gs clock delta chr =
     (let mx = fst (meshPosition chr);
          mz = snd (snd (meshPosition chr));
          py = fst (snd (playerPosition gs));
          (newX, newZ, moved) =
            (if isInBattle gs then
               let speed = (if isDodging gs then 8 else 4);
                   z1 = (if move_w (movement chr) then mz - speed * delta else mz);
                   z2 = (if move_s (movement chr) then z1 + speed * delta else z1);
                   x1 = (if move_a (movement chr) then mx - speed * delta else mx);
                   x2 = (if move_d (movement chr) then x1 + speed * delta else x1)
               in (max (-12) (min 12 x2), max (-12) (min 12 z2),
                   move_w (movement chr) \<or> move_s (movement chr)
                   \<or> move_a (movement chr) \<or> move_d (movement chr))
             else if isMoving chr then
               let newXExplore = mx + cos (direction chr) * 3 * delta;
                   newZExplore = mz + sin (direction chr) * 3 * delta
               in if newXExplore > -25 \<and> newXExplore < 25
                     \<and> newZExplore > -25 \<and> newZExplore < 25
                  then (newXExplore, newZExplore, True)
                  else (mx, mz, False)
             else (mx, mz, False))
      in if moved
         then (chr\<lparr> meshPosition := (newX, py + sin (clock * 8) * 0.1, newZ) \<rparr>,
               Some (newX, py, newZ))
         else (chr, None))"

text \<open>
  The \<^verbatim>\<open>onMove\<close> that \<^verbatim>\<open>Scene\<close> hands to \<^verbatim>\<open>Character\<close>: a function whose body is the
  comment \<^verbatim>\<open>// Update player position in parent component\<close> and nothing else.
\<close>

definition onMove :: "vec3 \<Rightarrow> GameState \<Rightarrow> GameState" where
  "onMove pos prev = prev"

text \<open>The movement keys: w or arrow up, s or arrow down, a or arrow left, d or arrow right.\<close>

datatype move_key = KeyW | KeyS | KeyA | KeyD

definition keyDown :: "GameState \<Rightarrow> move_key \<Rightarrow> Character \<Rightarrow> Character" where
  "keyDown gs k chr =
     (if isInBattle gs then
        (case k of
           KeyW \<Rightarrow> chr\<lparr> movement := (movement chr)\<lparr> move_w := True \<rparr> \<rparr>
         | KeyS \<Rightarrow> chr\<lparr> movement := (movement chr)\<lparr> move_s := True \<rparr> \<rparr>
         | KeyA \<Rightarrow> chr\<lparr> movement := (movement chr)\<lparr> move_a := True \<rparr> \<rparr>
         | KeyD \<Rightarrow> chr\<lparr> movement := (movement chr)\<lparr> move_d := True \<rparr> \<rparr>)
      else
        chr\<lparr> isMoving := True,
             direction := (case k of KeyW \<Rightarrow> pi / 2 | KeyS \<Rightarrow> - pi / 2 | KeyA \<Rightarrow> pi | KeyD \<Rightarrow> 0) \<rparr>)"

definition keyUp :: "GameState \<Rightarrow> move_key \<Rightarrow> Character \<Rightarrow> Character" where
  "keyUp gs k chr =
     (if isInBattle gs then
        (case k of
           KeyW \<Rightarrow> chr\<lparr> movement := (movement chr)\<lparr> move_w := False \<rparr> \<rparr>
         | KeyS \<Rightarrow> chr\<lparr> movement := (movement chr)\<lparr> move_s := False \<rparr> \<rparr>
         | KeyA \<Rightarrow> chr\<lparr> movement := (movement chr)\<lparr> move_a := False \<rparr> \<rparr>
         | KeyD \<Rightarrow> chr\<lparr> movement := (movement chr)\<lparr> move_d := False \<rparr> \<rparr>)
      else chr\<lparr> isMoving := False \<rparr>)"

text \<open>The page: the state cells of \<^verbatim>\<open>Portfolio\<close> with its timers, and the character.\<close>

record Page =
  system :: System
  character :: Character

definition initialPage :: Page where
  "initialPage = \<lparr> system = initialSystem, character = initialCharacter \<rparr>"

definition characterStep :: "real \<Rightarrow> real \<Rightarrow> Page \<Rightarrow> Page" where
  "characterStep clock delta p =
     (case characterFrame (game (system p)) clock delta (character p) of
        (chr, None) \<Rightarrow> p\<lparr> character := chr \<rparr>
      | (chr, Some pos) \<Rightarrow>
          p\<lparr> character := chr,
             system := (system p)\<lparr> game := onMove pos (game (system p)) \<rparr> \<rparr>)"

inductive page_step :: "Page \<Rightarrow> Page \<Rightarrow> bool" where
  p_system: "step (system p) sys \<Longrightarrow> page_step p (p\<lparr> system := sys \<rparr>)"
| p_keyDown: "page_step p (p\<lparr> character := keyDown (game (system p)) k (character p) \<rparr>)"
| p_keyUp: "page_step p (p\<lparr> character := keyUp (game (system p)) k (character p) \<rparr>)"
| p_frame: "0 \<le> delta \<Longrightarrow> page_step p (characterStep clock delta p)"

definition page_reachable :: "Page \<Rightarrow> bool" where
  "page_reachable p \<longleftrightarrow> page_step\<^sup>*\<^sup>* initialPage p"

subsection \<open>Fireball frames and the player's health\<close>

text \<open>
  The \<^verbatim>\<open>onHit\<close> of a \<^verbatim>\<open>Fireball\<close> is the \<^verbatim>\<open>handlePlayerHit\<close> of the latest render. The
  frames of one fireball with the effect of its calls on the system; the frame at clock
  \<open>t\<close> seconds happens at time \<open>1000 t\<close> ms.
\<close>

fun fireball_frames_sys :: "DragonAttack \<Rightarrow> real list \<Rightarrow> bool \<Rightarrow> System \<Rightarrow> bool \<times> System" where
  "fireball_frames_sys attack [] hasHit sys = (hasHit, sys)"
| "fireball_frames_sys attack (clock # rest) hasHit sys =
     (case fireball_frame attack clock hasHit of
        (h, None) \<Rightarrow> fireball_frames_sys attack rest h sys
      | (h, Some dmg) \<Rightarrow>
          fireball_frames_sys attack rest h (handlePlayerHit (game sys) (clock * 1000) dmg sys))"

subsection \<open>Runs used as examples\<close>

text \<open>
  The player unlocks the four sections and claims the rewards of the first experience
  card eight times (the experience amounts are those of the buttons), then starts the
  battle; the dragon launches an aoe at the origin at time 0; the player holds the d
  key for one second, four frames of 0.25 s.
\<close>

definition battleReady :: GameState where
  "battleReady =
     fold gainExperience [100, 150, 200, 250, 500, 500, 500, 500, 500, 500, 500, 500]
       (clickAll [''about'', ''experience'', ''skills'', ''projects''] initialGameState)"

definition inBattle :: System where
  "inBattle = initialSystem\<lparr> game := startBattle battleReady \<rparr>"

definition aoeInBattle :: System where
  "aoeInBattle = handleDragonAttack (game inBattle) 0 aoeAtOrigin inBattle"

definition keyHeld :: Page where
  "keyHeld = \<lparr> system = aoeInBattle,
               character = keyDown (game aoeInBattle) KeyD initialCharacter \<rparr>"

definition walkedAway :: Page where
  "walkedAway =
     characterStep 1 0.25 (characterStep 0.75 0.25
       (characterStep 0.5 0.25 (characterStep 0.25 0.25 keyHeld)))"

text \<open>
  A fireball launched 1500 ms after the aoe of \<open>aoeLaunched\<close>, and the state after that
  aoe has expired, at 3000 ms.
\<close>

definition fireballLate :: DragonAttack where
  "fireballLate = newAttack 0 (0, 15, -10) (0, 0, 0) 1.5 1500 0"

definition fireballLateLaunched :: System where
  "fireballLateLaunched = handleDragonAttack (game aoeLaunched) 1500 fireballLate aoeLaunched"

definition aoeHit :: System where
  "aoeHit = fire fireballLateLaunched"

text \<open>
  The player clicks the button of the about section, clicks it again, and clicks the
  button of the skills section: the system after the first click and after the third,
  and the same on the page, with a movement key pressed and a frame in between.
\<close>

definition aboutUnlocked :: System where
  "aboutUnlocked = initialSystem\<lparr> game := unlockButton ''about'' (game initialSystem) \<rparr>"

definition skillsUnlocked :: System where
  "skillsUnlocked =
     aboutUnlocked\<lparr> game := unlockButton ''skills'' (unlockButton ''about'' (game aboutUnlocked)) \<rparr>"

definition aboutPage :: Page where
  "aboutPage = initialPage\<lparr> system := aboutUnlocked \<rparr>"

definition skillsPage :: Page where
  "skillsPage =
     (characterStep 0.25 0.25
        (aboutPage\<lparr> character := keyDown (game aboutUnlocked) KeyD (character aboutPage) \<rparr>))
     \<lparr> system := skillsUnlocked \<rparr>"

section \<open>Experience and levels: what holds\<close>

text \<open>
  Claim C8. After any experience gain the level is \<open>floor(experience / 1000) + 1\<close>, so
  experience 0 and 999 give level 1, 1000 gives level 2 and 2500 gives level 3. When
  the gain raises the level, \<open>maxHealth\<close> grows by 20 and \<open>maxMana\<close> by 10 and health and
  mana are set to the new maxima; when it does not, all four are unchanged.
\<close>

theorem gainExperience_levels:
  "(let s' = gainExperience amount prev in
      level s' = experience s' div 1000 + 1
    \<and> experience s' = experience prev + amount
    \<and> (experience s' = 0 \<longrightarrow> level s' = 1)
    \<and> (experience s' = 999 \<longrightarrow> level s' = 1)
    \<and> (experience s' = 1000 \<longrightarrow> level s' = 2)
    \<and> (experience s' = 2500 \<longrightarrow> level s' = 3)
    \<and> (level s' > level prev \<longrightarrow>
          maxHealth s' = maxHealth prev + 20 \<and> maxMana s' = maxMana prev + 10
          \<and> health s' = maxHealth s' \<and> mana s' = maxMana s')
    \<and> (\<not> level s' > level prev \<longrightarrow>
          maxHealth s' = maxHealth prev \<and> maxMana s' = maxMana prev
          \<and> health s' = health prev \<and> mana s' = mana prev))"
  unfolding gainExperience_def Let_def by simp

theorem gainExperience_levels_witness:
  "level (gainExperience 1000 initialGameState) = 2
   \<and> level (gainExperience 1000 initialGameState) > level initialGameState
   \<and> maxHealth (gainExperience 1000 initialGameState) = 120
   \<and> health (gainExperience 1000 initialGameState) = 120
   \<and> maxMana (gainExperience 1000 initialGameState) = 60
   \<and> mana (gainExperience 1000 initialGameState) = 60
   \<and> experience (gainExperience 999 initialGameState) = 999
   \<and> level (gainExperience 999 initialGameState) = 1
   \<and> \<not> level (gainExperience 999 initialGameState) > level initialGameState
   \<and> health (gainExperience 999 initialGameState) = 100"
  using gainExperience_levels [of 1000 initialGameState]
        gainExperience_levels [of 999 initialGameState]
  by (simp add: initialGameState_def Let_def)

section \<open>Unlocked sections\<close>

lemma unlockAll_sections: "unlockedSections (unlockAll xs s) = unlockedSections s @ xs"
  by (induction xs arbitrary: s) (simp_all add: unlockSection_def)

lemma clickAll_prefix: "prefix (unlockedSections s) (unlockedSections (clickAll xs s))"
proof (induction xs arbitrary: s)
  case Nil
  show ?case by simp
next
  case (Cons x xs)
  have "prefix (unlockedSections s) (unlockedSections (unlockButton x s))"
    by (simp add: unlockButton_def unlockSection_def)
  then show ?case
    using Cons [of "unlockButton x s"] by (auto intro: prefix_order.trans)
qed

lemma clickAll_distinct:
  "distinct (unlockedSections s) \<Longrightarrow> distinct (unlockedSections (clickAll xs s))"
proof (induction xs arbitrary: s)
  case Nil
  then show ?case by simp
next
  case (Cons x xs)
  have "distinct (unlockedSections (unlockButton x s))"
    using Cons.prems by (simp add: unlockButton_def unlockSection_def)
  then show ?case using Cons.IH by simp
qed

lemma run_timer_sections:
  "unlockedSections (game (run_timer now f s)) = unlockedSections (game s)"
  by (cases f) (simp_all add: Let_def handlePlayerHit_def setTimeout_def hitUpdate_def)

lemma reachable_distinct: "reachable sys \<Longrightarrow> distinct (unlockedSections (game sys))"
proof (induction rule: reachable.induct)
  case r_init
  show ?case by (simp add: initialSystem_def initialGameState_def)
next
  case (r_timer sys)
  then show ?case
    by (simp add: fire_def Let_def run_timer_sections split: list.splits prod.splits)
qed (simp_all add: gainExperience_def Let_def addToInventory_def unlockButton_def
       unlockSection_def craftEquipment_def craftUpdate_def startBattle_def tryAgain_def
       handlePlayerAttack_def handleDragonAttack_def handlePlayerHit_def setTimeout_def
       hitUpdate_def)

lemma reachable_step: "step sys sys' \<Longrightarrow> reachable sys \<Longrightarrow> reachable sys'"
  by (induction rule: step.induct) (auto intro: reachable.intros)

lemma reachable_steps: "step\<^sup>*\<^sup>* sys sys' \<Longrightarrow> reachable sys \<Longrightarrow> reachable sys'"
  by (induction rule: rtranclp_induct) (auto intro: reachable_step)

lemma steps_reachable: "reachable sys \<Longrightarrow> step\<^sup>*\<^sup>* initialSystem sys"
  by (induction rule: reachable.induct) (auto intro: step.intros rtranclp.rtrancl_into_rtrancl)

lemma step_sections:
  "step sys sys' \<Longrightarrow> prefix (unlockedSections (game sys)) (unlockedSections (game sys'))"
proof (induction rule: step.induct)
  case (s_timer sys)
  show ?case
    by (simp add: fire_def Let_def run_timer_sections split: list.splits prod.splits)
qed (simp_all add: gainExperience_def Let_def addToInventory_def unlockButton_def
       unlockSection_def craftEquipment_def craftUpdate_def startBattle_def tryAgain_def
       handlePlayerAttack_def handleDragonAttack_def handlePlayerHit_def setTimeout_def
       hitUpdate_def)

lemma steps_sections:
  "step\<^sup>*\<^sup>* sys sys' \<Longrightarrow> prefix (unlockedSections (game sys)) (unlockedSections (game sys'))"
  by (induction rule: rtranclp_induct) (auto dest: step_sections intro: prefix_order.trans)

lemma page_step_sections:
  "page_step p p' \<Longrightarrow>
     prefix (unlockedSections (game (system p))) (unlockedSections (game (system p')))"
proof (induction rule: page_step.induct)
  case (p_system p sys)
  then show ?case by (simp add: step_sections)
next
  case (p_frame delta p clock)
  show ?case
    by (simp add: characterStep_def onMove_def split: prod.splits option.splits)
qed simp_all

lemma page_steps_sections:
  "page_step\<^sup>*\<^sup>* p p' \<Longrightarrow>
     prefix (unlockedSections (game (system p))) (unlockedSections (game (system p')))"
  by (induction rule: rtranclp_induct) (auto dest: page_step_sections intro: prefix_order.trans)

lemma aboutUnlocked_sections: "unlockedSections (game aboutUnlocked) = [''about'']"
  by (simp add: aboutUnlocked_def initialSystem_def initialGameState_def unlockButton_def
        unlockSection_def)

lemma skillsUnlocked_sections: "unlockedSections (game skillsUnlocked) = [''about'', ''skills'']"
  by (simp add: skillsUnlocked_def aboutUnlocked_sections unlockButton_def unlockSection_def)

lemma aboutUnlocked_steps: "step\<^sup>*\<^sup>* aboutUnlocked skillsUnlocked"
proof -
  let ?s2 = "aboutUnlocked\<lparr> game := unlockButton ''about'' (game aboutUnlocked) \<rparr>"
  have 1: "step aboutUnlocked ?s2" by (rule s_unlock)
  have "step ?s2 (?s2\<lparr> game := unlockButton ''skills'' (game ?s2) \<rparr>)" by (rule s_unlock)
  then have 2: "step ?s2 skillsUnlocked" by (simp add: skillsUnlocked_def)
  have "step\<^sup>*\<^sup>* aboutUnlocked ?s2" using 1 by (rule r_into_rtranclp)
  then show ?thesis using 2 by (rule rtranclp.rtrancl_into_rtrancl)
qed

lemma reachable_aboutUnlocked: "reachable aboutUnlocked"
  unfolding aboutUnlocked_def by (rule r_unlock [OF r_init])

lemma page_system_steps:
  "step\<^sup>*\<^sup>* (system p) sys \<Longrightarrow> page_step\<^sup>*\<^sup>* p (p\<lparr> system := sys \<rparr>)"
proof (induction rule: rtranclp_induct)
  case base
  show ?case by simp
next
  case (step y z)
  have "page_step (p\<lparr> system := y \<rparr>) ((p\<lparr> system := y \<rparr>)\<lparr> system := z \<rparr>)"
    by (rule p_system) (simp add: step.hyps(2))
  then have "page_step (p\<lparr> system := y \<rparr>) (p\<lparr> system := z \<rparr>)" by simp
  with step.IH show ?case by (rule rtranclp.rtrancl_into_rtrancl)
qed

lemma characterStep_system: "system (characterStep clock delta p) = system p"
proof (cases "characterFrame (game (system p)) clock delta (character p)")
  case (Pair chr moved)
  then show ?thesis
    by (cases moved) (simp_all add: characterStep_def onMove_def)
qed

lemma aboutPage_steps: "page_step\<^sup>*\<^sup>* aboutPage skillsPage"
proof -
  let ?p1 = "aboutPage\<lparr> character := keyDown (game aboutUnlocked) KeyD (character aboutPage) \<rparr>"
  let ?p2 = "characterStep 0.25 0.25 ?p1"
  have sys: "system aboutPage = aboutUnlocked" by (simp add: aboutPage_def)
  have "page_step aboutPage
          (aboutPage\<lparr> character := keyDown (game (system aboutPage)) KeyD (character aboutPage) \<rparr>)"
    by (rule p_keyDown)
  then have 1: "page_step aboutPage ?p1" unfolding sys .
  have 2: "page_step ?p1 ?p2" by (rule p_frame) simp
  have "system ?p2 = aboutUnlocked"
    unfolding characterStep_system by (simp add: sys)
  then have "step\<^sup>*\<^sup>* (system ?p2) skillsUnlocked" using aboutUnlocked_steps by simp
  then have 3: "page_step\<^sup>*\<^sup>* ?p2 (?p2\<lparr> system := skillsUnlocked \<rparr>)"
    by (rule page_system_steps)
  have "page_step\<^sup>*\<^sup>* aboutPage ?p1" using 1 by (rule r_into_rtranclp)
  then have "page_step\<^sup>*\<^sup>* aboutPage ?p2" using 2 by (rule rtranclp.rtrancl_into_rtrancl)
  then show ?thesis using 3 unfolding skillsPage_def by (rule rtranclp_trans)
qed

text \<open>
  Claim C9, as stated, fails: \<^verbatim>\<open>unlockSection\<close> appends without looking, so two calls
  with the same section leave it in the list twice.
\<close>

theorem unlockSection_duplicates:
  "\<not> distinct (unlockedSections (unlockAll [''about'', ''about''] initialGameState))"
  by (simp add: unlockSection_def initialGameState_def)

text \<open>
  Claim C9, amended. The list is append-only: a sequence of \<^verbatim>\<open>unlockSection\<close> calls
  appends its arguments, and every step of a run of the page (a handler, a timer, a
  key, a frame) leaves the old list as a prefix of the new one, so nothing ever removes
  an entry. Duplicates are kept out by the buttons, which are disabled once their
  section is in the list: a sequence of clicks keeps the list free of duplicates, and
  so does every run of the page.
\<close>

theorem unlockedSections_append_only:
  "unlockedSections (unlockAll xs s) = unlockedSections s @ xs
   \<and> prefix (unlockedSections s) (unlockedSections (clickAll xs s))
   \<and> (distinct (unlockedSections s) \<longrightarrow> distinct (unlockedSections (clickAll xs s)))
   \<and> (reachable sys \<longrightarrow> distinct (unlockedSections (game sys)))
   \<and> (step\<^sup>*\<^sup>* sys' sys''
        \<longrightarrow> prefix (unlockedSections (game sys')) (unlockedSections (game sys'')))
   \<and> (page_step\<^sup>*\<^sup>* p p'
        \<longrightarrow> prefix (unlockedSections (game (system p))) (unlockedSections (game (system p'))))"
  using unlockAll_sections clickAll_prefix clickAll_distinct reachable_distinct
    steps_sections page_steps_sections
  by blast


theorem unlockedSections_append_only_witness:
  "distinct (unlockedSections initialGameState)
   \<and> unlockedSections (clickAll [''about'', ''about'', ''skills''] initialGameState)
       = [''about'', ''skills'']
   \<and> distinct (unlockedSections (clickAll [''about'', ''about'', ''skills''] initialGameState))
   \<and> reachable skillsUnlocked
   \<and> distinct (unlockedSections (game skillsUnlocked))
   \<and> step\<^sup>*\<^sup>* aboutUnlocked skillsUnlocked
   \<and> page_step\<^sup>*\<^sup>* aboutPage skillsPage
   \<and> unlockedSections (game aboutUnlocked) = [''about'']
   \<and> unlockedSections (game skillsUnlocked) = [''about'', ''skills'']
   \<and> unlockedSections (game (system aboutPage)) = [''about'']
   \<and> unlockedSections (game (system skillsPage)) = [''about'', ''skills'']
   \<and> prefix (unlockedSections (game aboutUnlocked)) (unlockedSections (game skillsUnlocked))
   \<and> prefix (unlockedSections (game (system aboutPage)))
        (unlockedSections (game (system skillsPage)))"
proof -
  have r: "reachable skillsUnlocked"
    using reachable_steps [OF aboutUnlocked_steps reachable_aboutUnlocked] .
  have pg1: "system aboutPage = aboutUnlocked"
    by (simp add: aboutPage_def)
  have pg2: "system skillsPage = skillsUnlocked"
    unfolding skillsPage_def by simp
  note T = unlockedSections_append_only
            [of "[''about'', ''about'', ''skills'']" initialGameState skillsUnlocked
                aboutUnlocked skillsUnlocked aboutPage skillsPage]
  have d0: "distinct (unlockedSections initialGameState)"
    by (simp add: initialGameState_def)
  have c0: "unlockedSections (clickAll [''about'', ''about'', ''skills''] initialGameState)
       = [''about'', ''skills'']"
    by (simp add: initialGameState_def unlockButton_def unlockSection_def)
  have c1: "distinct (unlockedSections (clickAll [''about'', ''about'', ''skills''] initialGameState))"
    using T [THEN conjunct2, THEN conjunct2, THEN conjunct1] d0 by (rule mp)
  have c2: "distinct (unlockedSections (game skillsUnlocked))"
    using T [THEN conjunct2, THEN conjunct2, THEN conjunct2, THEN conjunct1] r by (rule mp)
  have c3: "prefix (unlockedSections (game aboutUnlocked)) (unlockedSections (game skillsUnlocked))"
    using T [THEN conjunct2, THEN conjunct2, THEN conjunct2, THEN conjunct2, THEN conjunct1]
      aboutUnlocked_steps
    by (rule mp)
  have c4: "prefix (unlockedSections (game (system aboutPage)))
        (unlockedSections (game (system skillsPage)))"
    using T [THEN conjunct2, THEN conjunct2, THEN conjunct2, THEN conjunct2, THEN conjunct2]
      aboutPage_steps
    by (rule mp)
  have c5: "unlockedSections (game (system aboutPage)) = [''about'']"
    by (simp only: pg1 aboutUnlocked_sections)
  have c6: "unlockedSections (game (system skillsPage)) = [''about'', ''skills'']"
    by (simp only: pg2 skillsUnlocked_sections)
  show ?thesis
    by (intro conjI d0 c0 c1 r c2 aboutUnlocked_steps aboutPage_steps
          aboutUnlocked_sections skillsUnlocked_sections c5 c6 c3 c4)
qed

section \<open>Crafting: what holds\<close>

lemma str_includes_sublist: "str_includes s needle \<longleftrightarrow> sublist needle s"
  by (induction s) (simp_all add: sublist_Cons_right)

lemma inv_get_set: "inv_get (inv_set i k v) k' = (if k' = k then v else inv_get i k')"
  by (cases k; cases k') simp_all

lemma inv_get_fold:
  "inv_get (fold (\<lambda>k acc. inv_set acc k (f k)) ks i) k' =
     (if k' \<in> set ks then f k' else inv_get i k')"
  by (induction ks arbitrary: i) (simp_all add: inv_get_set)

lemma set_keys: "set (keys c) = dom c"
proof -
  have "k \<in> set all_resources" for k
    by (cases k) (simp_all add: all_resources_def)
  then show ?thesis by (auto simp: keys_def)
qed

lemma canCraft_iff:
  "canCraft gs c \<longleftrightarrow> (\<forall>k v. c k = Some v \<longrightarrow> v \<le> inv_get (inventory gs) k)"
  by (fastforce simp: canCraft_def list_all_iff set_keys cost_of_def dom_def)

lemma deduct_get: "inv_get (deduct i c) k = inv_get i k - cost_of c k"
  by (auto simp: deduct_def inv_get_fold set_keys cost_of_def split: option.splits)

lemma gainExperience_changes:
  assumes "experience g' = experience g"
  shows "gainExperience 100 g \<noteq> g'"
proof
  assume "gainExperience 100 g = g'"
  then have "experience (gainExperience 100 g) = experience g'" by simp
  then show False using assms by (simp add: gainExperience_def Let_def)
qed

lemma keys_ironSwordCost: "keys ironSwordCost = [iron, wood]"
  by (simp add: keys_def ironSwordCost_def all_resources_def)

lemma cost_of_ironSwordCost:
  "cost_of ironSwordCost k = (if k = iron then 5 else if k = wood then 2 else 0)"
  by (simp add: cost_of_def ironSwordCost_def)

text \<open>
  Claim C7. A click on a crafting button, in a state \<open>s\<close>, changes the state exactly
  when every listed cost is covered by the inventory of \<open>s\<close>. Then every listed cost is
  subtracted and each equipment slot whose keyword (Sword, Armor, Shield) occurs in the
  item name holds the item, the other slots keeping their content; otherwise the state
  is the same as before.
\<close>

theorem craftEquipment_contract:
  "(let s' = craftEquipment s item c s in
      (s' \<noteq> s \<longleftrightarrow> (\<forall>k v. c k = Some v \<longrightarrow> v \<le> inv_get (inventory s) k))
    \<and> (canCraft s c \<longleftrightarrow> (\<forall>k v. c k = Some v \<longrightarrow> v \<le> inv_get (inventory s) k))
    \<and> (canCraft s c \<longrightarrow>
          (\<forall>k. inv_get (inventory s') k = inv_get (inventory s) k - cost_of c k)
        \<and> weapon (equipment s') =
            (if sublist ''Sword'' item then item else weapon (equipment s))
        \<and> armor (equipment s') =
            (if sublist ''Armor'' item then item else armor (equipment s))
        \<and> shield (equipment s') =
            (if sublist ''Shield'' item then item else shield (equipment s)))
    \<and> (\<not> canCraft s c \<longrightarrow> s' = s))"
proof -
  have changed: "craftEquipment s item c s \<noteq> s \<longleftrightarrow> canCraft s c"
    using gainExperience_changes [of s "craftUpdate item c s"]
    by (auto simp: craftEquipment_def craftUpdate_def)
  have ok: "canCraft s c \<Longrightarrow>
      inventory (craftEquipment s item c s) = deduct (inventory s) c
    \<and> equipment (craftEquipment s item c s) = equipment (craftUpdate item c s)"
    by (simp add: craftEquipment_def gainExperience_def Let_def craftUpdate_def)
  show ?thesis
    unfolding Let_def
    using changed ok canCraft_iff [of s c]
    by (auto simp: deduct_get craftUpdate_def str_includes_sublist craftEquipment_def)
qed

theorem craftEquipment_contract_witness:
  "canCraft stocked ironSwordCost
   \<and> inv_iron (inventory (craftEquipment stocked ''Iron Sword'' ironSwordCost stocked)) = 0
   \<and> inv_wood (inventory (craftEquipment stocked ''Iron Sword'' ironSwordCost stocked)) = 0
   \<and> equipment (craftEquipment stocked ''Iron Sword'' ironSwordCost stocked)
       = \<lparr> weapon = ''Iron Sword'', armor = ''Leather Armor'', shield = '''' \<rparr>
   \<and> \<not> canCraft (craftEquipment stocked ''Iron Sword'' ironSwordCost stocked) ironSwordCost
   \<and> craftEquipment (craftEquipment stocked ''Iron Sword'' ironSwordCost stocked)
        ''Iron Sword'' ironSwordCost (craftEquipment stocked ''Iron Sword'' ironSwordCost stocked)
       = craftEquipment stocked ''Iron Sword'' ironSwordCost stocked"
proof -
  define s1 where "s1 = craftEquipment stocked ''Iron Sword'' ironSwordCost stocked"
  have can: "canCraft stocked ironSwordCost"
    by (simp add: canCraft_def keys_ironSwordCost cost_of_ironSwordCost stocked_def
          initialGameState_def)
  have first: "inventory s1 = inventory initialGameState
      \<and> equipment s1 = \<lparr> weapon = ''Iron Sword'', armor = ''Leather Armor'', shield = '''' \<rparr>"
  proof -
    have "s1 = gainExperience 100 (craftUpdate ''Iron Sword'' ironSwordCost stocked)"
      unfolding s1_def craftEquipment_def using can by simp
    then show ?thesis
      by (simp add: craftUpdate_def deduct_def keys_ironSwordCost cost_of_ironSwordCost
            gainExperience_def Let_def stocked_def initialGameState_def)
  qed
  have cannot: "\<not> canCraft s1 ironSwordCost"
    by (simp add: canCraft_def keys_ironSwordCost cost_of_ironSwordCost first
          initialGameState_def)
  have again: "craftEquipment s1 ''Iron Sword'' ironSwordCost s1 = s1"
    using craftEquipment_contract [of s1 "''Iron Sword''" ironSwordCost] cannot
    by (simp add: Let_def)
  show ?thesis
    using can first cannot again unfolding s1_def by (simp add: initialGameState_def)
qed

section \<open>Damage stays within bounds\<close>

lemma handlePlayerHit_invariant:
  "run_invariant sys \<Longrightarrow> 0 \<le> dmg \<Longrightarrow> run_invariant (handlePlayerHit gs now dmg sys)"
  by (simp add: run_invariant_def handlePlayerHit_def setTimeout_def in_bounds_def hitUpdate_def)

lemma handlePlayerAttack_invariant:
  "run_invariant sys \<Longrightarrow> 1 \<le> level gs \<Longrightarrow> run_invariant (handlePlayerAttack gs now sys)"
  by (simp add: run_invariant_def handlePlayerAttack_def setTimeout_def in_bounds_def
        attackDamage_def Let_def)

lemma run_timer_invariant:
  "run_invariant sys \<Longrightarrow> timer_ok f \<Longrightarrow> run_invariant (run_timer now f sys)"
proof (cases f)
  case (ExpireAttack gs a)
  assume inv: "run_invariant sys" and ok: "timer_ok f"
  let ?sys1 = "sys\<lparr> dragonAttacks := filter (\<lambda>b. attack_id b \<noteq> attack_id a) (dragonAttacks sys) \<rparr>"
  have "run_invariant ?sys1" using inv by (simp add: run_invariant_def)
  then show ?thesis
    using ExpireAttack ok handlePlayerHit_invariant [of ?sys1 "damage a" gs now]
    by (simp add: Let_def)
qed (simp_all add: run_invariant_def in_bounds_def)

lemma earliest_less: "ts \<noteq> [] \<Longrightarrow> earliest ts < length ts"
  by (induction ts rule: earliest.induct) (simp_all add: Let_def)

lemma fire_invariant: "run_invariant sys \<Longrightarrow> run_invariant (fire sys)"
proof (cases "timers sys")
  case Nil
  then show "run_invariant sys \<Longrightarrow> ?thesis" by (simp add: fire_def)
next
  case (Cons t ts)
  assume inv: "run_invariant sys"
  let ?i = "earliest (timers sys)"
  let ?rest = "sys\<lparr> timers := take ?i (timers sys) @ drop (Suc ?i) (timers sys) \<rparr>"
  have i: "?i < length (timers sys)" using Cons earliest_less [of "timers sys"] by simp
  then have mem: "timers sys ! ?i \<in> set (timers sys)" by simp
  have "set (take ?i (timers sys) @ drop (Suc ?i) (timers sys)) \<subseteq> set (timers sys)"
    by (auto dest: in_set_takeD in_set_dropD)
  then have rest: "run_invariant ?rest" using inv by (auto simp: run_invariant_def)
  have ok: "timer_ok (snd (timers sys ! ?i))" using inv mem by (simp add: run_invariant_def)
  have "fire sys = run_timer (fst (timers sys ! ?i)) (snd (timers sys ! ?i)) ?rest"
    using Cons by (simp add: fire_def Let_def split: prod.splits)
  then show ?thesis using run_timer_invariant [OF rest ok] by simp
qed

lemma newAttack_damage: "0 \<le> rnd \<Longrightarrow> 0 \<le> damage (newAttack cursor mesh player clock dateNow rnd)"
  by (simp add: newAttack_def Let_def)

lemma gainExperience_invariant:
  "run_invariant sys \<Longrightarrow> 0 \<le> amount \<Longrightarrow> run_invariant (sys\<lparr> game := gainExperience amount (game sys) \<rparr>)"
  by (simp add: run_invariant_def in_bounds_def gainExperience_def Let_def pos_imp_zdiv_nonneg_iff)

lemma reachable_invariant: "reachable sys \<Longrightarrow> run_invariant sys"
proof (induction rule: reachable.induct)
  case r_init
  show ?case by (simp add: run_invariant_def in_bounds_def initialSystem_def initialGameState_def)
next
  case (r_gain sys amount)
  then show ?case by (simp add: gainExperience_invariant)
next
  case (r_add sys items)
  then show ?case by (simp add: run_invariant_def in_bounds_def addToInventory_def)
next
  case (r_unlock sys s)
  then show ?case by (simp add: run_invariant_def in_bounds_def unlockButton_def unlockSection_def)
next
  case (r_craft sys item c)
  have "run_invariant (sys\<lparr> game := craftUpdate item c (game sys) \<rparr>)"
    using r_craft.IH by (simp add: run_invariant_def in_bounds_def craftUpdate_def)
  from gainExperience_invariant [OF this, of 100] r_craft.IH
  show ?case by (cases "canCraft (game sys) c") (simp_all add: craftEquipment_def)
next
  case (r_start sys)
  then show ?case by (simp add: run_invariant_def in_bounds_def startBattle_def)
next
  case (r_retry sys)
  then show ?case by (simp add: run_invariant_def in_bounds_def tryAgain_def)
next
  case (r_dodge sys b)
  then show ?case by (simp add: run_invariant_def in_bounds_def)
next
  case (r_attack sys now)
  then show ?case
    using handlePlayerAttack_invariant [of sys "game sys" now] by (simp add: run_invariant_def)
next
  case (r_dragon sys rnd now cursor mesh clock dateNow)
  then show ?case
    using newAttack_damage [of rnd]
    by (simp add: run_invariant_def handleDragonAttack_def setTimeout_def)
next
  case (r_fireball sys a now)
  then show ?case
    using handlePlayerHit_invariant [of sys "damage a" "game sys" now]
    by (simp add: run_invariant_def)
next
  case (r_timer sys)
  then show ?case by (simp add: fire_invariant)
qed

text \<open>
  Claim C1. In every state a run of the page reaches, health lies between 0 and
  \<open>maxHealth\<close> and the dragon's health between 0 and \<open>maxDragonHealth\<close>; and applying
  damage in such a state, to the player through \<^verbatim>\<open>handlePlayerHit\<close> with any damage
  amount (a number that is not negative), or to the dragon through
  \<^verbatim>\<open>handlePlayerAttack\<close>, gives a state within the same bounds. The closure of either
  handler may come from any render of the run.
\<close>

theorem damage_keeps_bounds:
  "reachable sys \<Longrightarrow> reachable sg \<Longrightarrow> 0 \<le> dmg \<Longrightarrow>
     in_bounds (game sys)
   \<and> in_bounds (game (handlePlayerHit (game sg) now dmg sys))
   \<and> in_bounds (game (handlePlayerAttack (game sg) now' sys))"
  using reachable_invariant [of sys] reachable_invariant [of sg]
    handlePlayerHit_invariant [of sys dmg "game sg" now]
    handlePlayerAttack_invariant [of sys "game sg" now']
  by (simp add: run_invariant_def)

theorem damage_keeps_bounds_witness:
  "reachable initialSystem \<and> (0::int) \<le> 25
   \<and> health (game (handlePlayerHit (game initialSystem) 0 25 initialSystem)) = 75
   \<and> in_bounds (game (handlePlayerHit (game initialSystem) 0 25 initialSystem))
   \<and> in_bounds (game (handlePlayerAttack (game initialSystem) 1000 initialSystem))"
  using damage_keeps_bounds [OF r_init r_init, of 25 0 1000] r_init
  by (simp add: handlePlayerHit_def hitUpdate_def setTimeout_def initialSystem_def
        initialGameState_def)

section \<open>The player's attack\<close>

lemma sqrt_less_iff: "0 < r \<Longrightarrow> sqrt x < r \<longleftrightarrow> x < r\<^sup>2"
  by (metis real_sqrt_less_iff real_sqrt_abs abs_of_pos)




section \<open>The dragon's scheduler: what holds\<close>






section \<open>Fireballs: what holds\<close>

lemma fireball_frames_done: "fireball_frames a clocks True = (True, [])"
  by (induction clocks) (simp_all add: fireball_frame_def)

lemma fireball_frames_find:
  "fireball_frames a clocks False =
     (case find (fireball_collides a) clocks of
        None \<Rightarrow> (False, [])
      | Some t \<Rightarrow> (True, [(t, damage a)]))"
  by (induction clocks) (simp_all add: fireball_frame_def fireball_frames_done)

lemma fireball_progress_eq:
  "fireball_progress a clock = min ((clock * 1000 - startTime a) / duration a) 1"
proof -
  have h: "x / 1000 / (d / 1000) = x / d" for x d :: real by simp
  show ?thesis unfolding fireball_progress_def Let_def h by (rule refl)
qed

lemma fireball_position_ends:
  "0 < duration a \<Longrightarrow> fireball_position a (startTime a / 1000) = position a
     \<and> fireball_position a ((startTime a + duration a) / 1000) = target a"
proof -
  assume d: "0 < duration a"
  have p0: "fireball_progress a (startTime a / 1000) = 0"
    by (simp add: fireball_progress_eq)
  have "(startTime a + duration a) / 1000 * 1000 - startTime a = duration a"
    by (simp add: field_simps)
  then have p1: "fireball_progress a ((startTime a + duration a) / 1000) = 1"
    using d unfolding fireball_progress_eq by simp
  show ?thesis
    unfolding fireball_position_def Let_def p0 p1
    by (cases "position a"; cases "target a") simp
qed

lemma fireballAtOrigin_fields:
  "position fireballAtOrigin = (0, 15, -10) \<and> target fireballAtOrigin = (0, 0, 0)
   \<and> startTime fireballAtOrigin = 1000 \<and> duration fireballAtOrigin = 2000
   \<and> damage fireballAtOrigin = 20 \<and> attack_type fireballAtOrigin = fireball
   \<and> attack_id fireballAtOrigin = 1000"
  by (simp add: fireballAtOrigin_def newAttack_def patterns_def)

lemma fireballAtOrigin_collides:
  "\<not> fireball_collides fireballAtOrigin 1.5 \<and> \<not> fireball_collides fireballAtOrigin 2
   \<and> fireball_collides fireballAtOrigin 2.8"
proof -
  have "fireball_position fireballAtOrigin 2.8 = (0, 3/2, -1)"
    by (simp add: fireball_position_def Let_def fireball_progress_eq fireballAtOrigin_fields)
  then have "planar_distance (fireball_position fireballAtOrigin 2.8) (target fireballAtOrigin) = 1"
    by (simp add: fireballAtOrigin_fields)
  then show ?thesis
    by (simp add: fireball_collides_def fireball_progress_eq fireballAtOrigin_fields)
qed

section \<open>Breath and charge attacks\<close>

lemma breathAtOrigin_fields:
  "attack_type breathAtOrigin = breath \<and> duration breathAtOrigin = 1500
   \<and> damage breathAtOrigin = 25 \<and> attack_id breathAtOrigin = 0"
  by (simp add: breathAtOrigin_def newAttack_def patterns_def)

text \<open>
  Claim C10. A breath or charge attack never damages the player: no frame of it calls
  \<^verbatim>\<open>onHit\<close>, launching it leaves the game state as it is and arms its expiry, and the
  expiry removes it from the active attacks, arms nothing and leaves the game state as
  it is. Only a fireball makes a frame call \<^verbatim>\<open>onHit\<close>, and only the expiry of an aoe
  changes the game state.
\<close>

theorem breath_charge_harmless:
  "(attack_type a = breath \<or> attack_type a = charge \<longrightarrow>
       snd (scene_attack_frame a clock hasHit) = None
     \<and> game (handleDragonAttack gs now a sys) = game sys
     \<and> timers (handleDragonAttack gs now a sys) = timers sys @ [(now + duration a, ExpireAttack gs a)]
     \<and> game (run_timer due (ExpireAttack gs a) sys') = game sys'
     \<and> timers (run_timer due (ExpireAttack gs a) sys') = timers sys'
     \<and> a \<notin> set (dragonAttacks (run_timer due (ExpireAttack gs a) sys')))
   \<and> (snd (scene_attack_frame a clock hasHit) \<noteq> None \<longrightarrow> attack_type a = fireball)
   \<and> (game (run_timer due (ExpireAttack gs a) sys') \<noteq> game sys' \<longrightarrow> attack_type a = aoe)"
  by (auto simp: scene_attack_frame_def handleDragonAttack_def setTimeout_def Let_def)

theorem breath_charge_harmless_witness:
  "attack_type breathAtOrigin = breath
   \<and> timers (handleDragonAttack initialGameState 0 breathAtOrigin initialSystem)
        = [(1500, ExpireAttack initialGameState breathAtOrigin)]
   \<and> dragonAttacks (handleDragonAttack initialGameState 0 breathAtOrigin initialSystem) = [breathAtOrigin]
   \<and> fire (handleDragonAttack initialGameState 0 breathAtOrigin initialSystem) = initialSystem"
proof -
  let ?s1 = "handleDragonAttack initialGameState 0 breathAtOrigin initialSystem"
  let ?s2 = "?s1\<lparr> timers := [] \<rparr>"
  have t: "timers ?s1 = [(1500, ExpireAttack initialGameState breathAtOrigin)]"
    by (simp add: handleDragonAttack_def setTimeout_def initialSystem_def breathAtOrigin_fields)
  have f: "fire ?s1 = run_timer 1500 (ExpireAttack initialGameState breathAtOrigin) ?s2"
    by (simp add: fire_def t)
  have "game (fire ?s1) = initialGameState \<and> timers (fire ?s1) = []
      \<and> dragonAttacks (fire ?s1) = []"
    using breath_charge_harmless [where a = breathAtOrigin and gs = initialGameState
        and due = 1500 and sys' = ?s2 and now = 0 and sys = initialSystem]
    unfolding f
    by (simp add: breathAtOrigin_fields handleDragonAttack_def setTimeout_def initialSystem_def Let_def)
  then have "fire ?s1 = initialSystem"
    by (simp add: initialSystem_def)
  then show ?thesis
    using t by (simp add: breathAtOrigin_fields handleDragonAttack_def setTimeout_def initialSystem_def)
qed

section \<open>Hits and invulnerability\<close>

text \<open>
  What \<^verbatim>\<open>handlePlayerHit\<close> does: nothing when the state of its closure is invulnerable;
  otherwise it deducts the damage from the current health, stopping at 0, sets the
  flag, and arms the callback that clears the flag 1000 ms later.
\<close>

lemma handlePlayerHit_guard:
  "(invulnerable gs \<longrightarrow> handlePlayerHit gs now dmg sys = sys)
   \<and> (\<not> invulnerable gs \<longrightarrow>
        health (game (handlePlayerHit gs now dmg sys)) = max 0 (health (game sys) - dmg)
      \<and> invulnerable (game (handlePlayerHit gs now dmg sys))
      \<and> timers (handlePlayerHit gs now dmg sys) = timers sys @ [(now + 1000, ResetInvulnerable)]
      \<and> \<not> invulnerable (game (run_timer (now + 1000) ResetInvulnerable
                                 (handlePlayerHit gs now dmg sys))))"
  by (simp add: handlePlayerHit_def setTimeout_def hitUpdate_def)

lemma aoeAtOrigin_fields:
  "attack_type aoeAtOrigin = aoe \<and> duration aoeAtOrigin = 3000 \<and> damage aoeAtOrigin = 25
   \<and> attack_id aoeAtOrigin = 0 \<and> target aoeAtOrigin = (0, 0, 0)"
  by (simp add: aoeAtOrigin_def newAttack_def patterns_def)

lemma aoeLaunched_eq:
  "aoeLaunched = \<lparr> game = initialGameState, dragonAttacks = [aoeAtOrigin],
                   timers = [(3000, ExpireAttack initialGameState aoeAtOrigin)] \<rparr>"
  by (simp add: aoeLaunched_def handleDragonAttack_def setTimeout_def initialSystem_def aoeAtOrigin_fields)

lemma fireballLaunched_eq:
  "fireballLaunched = \<lparr> game = initialGameState, dragonAttacks = [aoeAtOrigin, fireballAtOrigin],
       timers = [(3000, ExpireAttack initialGameState aoeAtOrigin),
                 (3000, ExpireAttack initialGameState fireballAtOrigin)] \<rparr>"
  by (simp add: fireballLaunched_def aoeLaunched_eq handleDragonAttack_def setTimeout_def fireballAtOrigin_fields)

lemma fireballHit_eq:
  "fireballHit = handlePlayerHit (game fireballLaunched) 2800 (damage fireballAtOrigin) fireballLaunched"
  using fireballAtOrigin_collides by (simp add: fireballHit_def fireball_frame_def)

lemma fireballHit_state:
  "fireballHit = \<lparr> game = initialGameState\<lparr> health := 80, invulnerable := True \<rparr>,
       dragonAttacks = [aoeAtOrigin, fireballAtOrigin],
       timers = [(3000, ExpireAttack initialGameState aoeAtOrigin),
                 (3000, ExpireAttack initialGameState fireballAtOrigin),
                 (3800, ResetInvulnerable)] \<rparr>"
  unfolding fireballHit_eq
  by (simp add: fireballLaunched_eq handlePlayerHit_def setTimeout_def hitUpdate_def fireballAtOrigin_fields initialGameState_def)

lemma aoeExpired_state:
  "aoeExpired = \<lparr> game = initialGameState\<lparr> health := 55, invulnerable := True \<rparr>,
       dragonAttacks = [fireballAtOrigin],
       timers = [(3000, ExpireAttack initialGameState fireballAtOrigin),
                 (3800, ResetInvulnerable), (4000, ResetInvulnerable)] \<rparr>"
  unfolding aoeExpired_def fireballHit_state
  by (simp add: fire_def Let_def aoeAtOrigin_fields fireballAtOrigin_fields handlePlayerHit_def setTimeout_def hitUpdate_def initialGameState_def)

lemma reachable_aoeExpired: "reachable aoeExpired"
proof -
  have 1: "reachable aoeLaunched"
    unfolding aoeLaunched_def aoeAtOrigin_def
    using r_dragon [OF r_init, of "0.5" 0 2 "(0, 15, -10)" 0 0]
    by (simp add: initialSystem_def initialGameState_def)
  have "playerPosition (game aoeLaunched) = (0, 0, 0)"
    by (simp add: aoeLaunched_eq initialGameState_def)
  then have 2: "reachable fireballLaunched"
    unfolding fireballLaunched_def fireballAtOrigin_def
    using r_dragon [OF 1, of 0 1000 0 "(0, 15, -10)" 1 1000]
    by simp
  have "fireballAtOrigin \<in> set (dragonAttacks fireballLaunched)"
    by (simp add: fireballLaunched_eq)
  then have 3: "reachable fireballHit"
    unfolding fireballHit_eq
    using r_fireball [OF 2, of fireballAtOrigin 2800] by (simp add: fireballAtOrigin_fields)
  show ?thesis unfolding aoeExpired_def using r_timer [OF 3] .
qed

text \<open>
  Claim C2, on the code. The guard of \<^verbatim>\<open>handlePlayerHit\<close> reads the state of its closure.
  The expiry callback of an aoe calls the \<^verbatim>\<open>handlePlayerHit\<close> of the render that launched
  the attack, three seconds earlier. In the run below the player is hit by a fireball at
  2800 ms (health 100 to 80, invulnerable until 3800 ms); at 3000 ms the aoe launched
  at 0 ms expires and, its closure having seen a vulnerable player, takes health from
  80 to 55, 200 ms after the first hit and while the player is invulnerable.
\<close>

theorem aoe_expiry_hits_invulnerable_player:
  "snd (fireball_frame fireballAtOrigin 2.8 False) = Some 20
   \<and> health (game fireballHit) = 80 \<and> invulnerable (game fireballHit)
   \<and> timers fireballHit = [(3000, ExpireAttack initialGameState aoeAtOrigin),
                           (3000, ExpireAttack initialGameState fireballAtOrigin),
                           (3800, ResetInvulnerable)]
   \<and> health (game (fire fireballHit)) = 55
   \<and> invulnerable (game (fire fireballHit))
   \<and> reachable (fire fireballHit)"
proof -
  have "snd (fireball_frame fireballAtOrigin 2.8 False) = Some 20"
    using fireballAtOrigin_collides by (simp add: fireball_frame_def fireballAtOrigin_fields)
  moreover have "health (game fireballHit) = 80 \<and> invulnerable (game fireballHit)
      \<and> timers fireballHit = [(3000, ExpireAttack initialGameState aoeAtOrigin),
                           (3000, ExpireAttack initialGameState fireballAtOrigin),
                           (3800, ResetInvulnerable)]"
    by (simp add: fireballHit_state)
  moreover have "health (game (fire fireballHit)) = 55 \<and> invulnerable (game (fire fireballHit))"
    using aoeExpired_state unfolding aoeExpired_def by simp
  moreover have "reachable (fire fireballHit)"
    using reachable_aoeExpired unfolding aoeExpired_def .
  ultimately show ?thesis by blast
qed

section \<open>The expiry of an aoe\<close>

text \<open>
  What the expiry callback does with an aoe: it removes the attack and, when the player
  position in the state of its closure is less than 3 units from the target, calls
  \<^verbatim>\<open>handlePlayerHit\<close> of that closure with the attack's damage.
\<close>

lemma aoe_expiry:
  "attack_type a = aoe \<Longrightarrow>
     run_timer due (ExpireAttack gs a) sys =
       (let sys1 = sys\<lparr> dragonAttacks :=
                          filter (\<lambda>b. attack_id b \<noteq> attack_id a) (dragonAttacks sys) \<rparr>
        in if planar_distance (playerPosition gs) (target a) < 3
           then handlePlayerHit gs due (damage a) sys1 else sys1)"
  by (simp add: Let_def)

text \<open>No step of a run writes the player position of the game state.\<close>

lemma run_timer_playerPosition:
  "playerPosition (game (run_timer now f s)) = playerPosition (game s)"
  by (cases f) (simp_all add: Let_def handlePlayerHit_def setTimeout_def hitUpdate_def)

lemma reachable_playerPosition: "reachable sys \<Longrightarrow> playerPosition (game sys) = (0, 0, 0)"
proof (induction rule: reachable.induct)
  case r_init
  show ?case by (simp add: initialSystem_def initialGameState_def)
next
  case (r_timer sys)
  then show ?case
    by (simp add: fire_def Let_def run_timer_playerPosition split: list.splits prod.splits)
qed (simp_all add: gainExperience_def Let_def addToInventory_def unlockButton_def
       unlockSection_def craftEquipment_def craftUpdate_def startBattle_def tryAgain_def
       handlePlayerAttack_def handleDragonAttack_def handlePlayerHit_def setTimeout_def
       hitUpdate_def)

text \<open>
  The character on screen does move, but \<^verbatim>\<open>onMove\<close> does nothing with the new position:
  on every page a run reaches, the game state still has the player at the origin.
\<close>

lemma page_reachable_system: "page_reachable p \<Longrightarrow> reachable (system p)"
  unfolding page_reachable_def
proof (induction rule: rtranclp_induct)
  case base
  show ?case by (simp add: initialPage_def r_init)
next
  case (step y z)
  from step.hyps(2) step.IH show ?case
    by (induction rule: page_step.induct)
       (simp_all add: reachable_step characterStep_system)
qed

lemma page_reachable_playerPosition:
  "page_reachable p \<Longrightarrow> playerPosition (game (system p)) = (0, 0, 0)"
  by (rule reachable_playerPosition [OF page_reachable_system])

lemma reachable_page:
  "reachable sys \<Longrightarrow> page_reachable \<lparr> system = sys, character = initialCharacter \<rparr>"
proof -
  assume "reachable sys"
  then have "step\<^sup>*\<^sup>* (system initialPage) sys"
    using steps_reachable by (simp add: initialPage_def)
  then have "page_step\<^sup>*\<^sup>* initialPage (initialPage\<lparr> system := sys \<rparr>)"
    by (rule page_system_steps)
  then show ?thesis by (simp add: page_reachable_def initialPage_def)
qed

lemma page_reachable_step: "page_reachable p \<Longrightarrow> page_step p p' \<Longrightarrow> page_reachable p'"
  unfolding page_reachable_def by (rule rtranclp.rtrancl_into_rtrancl)

lemma reachable_clickAll:
  "reachable sys \<Longrightarrow> reachable (sys\<lparr> game := clickAll xs (game sys) \<rparr>)"
proof (induction xs arbitrary: sys)
  case Nil
  then show ?case by simp
next
  case (Cons x xs)
  from Cons.IH [OF r_unlock [OF Cons.prems, of x]] show ?case by simp
qed

lemma reachable_gains:
  "reachable sys \<Longrightarrow> \<forall>x \<in> set xs. 0 \<le> x
     \<Longrightarrow> reachable (sys\<lparr> game := fold gainExperience xs (game sys) \<rparr>)"
proof (induction xs arbitrary: sys)
  case Nil
  then show ?case by simp
next
  case (Cons x xs)
  have "reachable (sys\<lparr> game := gainExperience x (game sys) \<rparr>)"
    using Cons.prems by (intro r_gain) simp_all
  from Cons.IH [OF this] Cons.prems(2) show ?case by simp
qed

lemma battleReady_fields:
  "level battleReady = 5 \<and> health battleReady = 180 \<and> maxHealth battleReady = 180
   \<and> unlockedSections battleReady = [''about'', ''experience'', ''skills'', ''projects'']
   \<and> \<not> isInBattle battleReady \<and> \<not> isDodging battleReady \<and> \<not> invulnerable battleReady
   \<and> playerPosition battleReady = (0, 0, 0)"
  by (simp add: battleReady_def initialGameState_def unlockButton_def unlockSection_def
        gainExperience_def Let_def)

lemma reachable_aoeInBattle: "reachable aoeInBattle"
proof -
  have "reachable (initialSystem\<lparr> game := clickAll [''about'', ''experience'', ''skills'', ''projects'']
          (game initialSystem) \<rparr>)"
    by (rule reachable_clickAll [OF r_init])
  from reachable_gains [OF this, of "[100, 150, 200, 250, 500, 500, 500, 500, 500, 500, 500, 500]"]
  have 1: "reachable (initialSystem\<lparr> game := battleReady \<rparr>)"
    by (simp add: battleReady_def initialSystem_def)
  have 2: "reachable inBattle"
    using r_start [OF 1] by (simp add: inBattle_def readyForBattle_def battleReady_fields)
  have "playerPosition (game inBattle) = (0, 0, 0)"
    by (simp add: inBattle_def startBattle_def)
  then show ?thesis
    unfolding aoeInBattle_def aoeAtOrigin_def
    using r_dragon [OF 2, of "0.5" 0 2 "(0, 15, -10)" 0 0]
    by simp
qed

lemma aoeInBattle_eq:
  "aoeInBattle = \<lparr> game = startBattle battleReady, dragonAttacks = [aoeAtOrigin],
       timers = [(3000, ExpireAttack (startBattle battleReady) aoeAtOrigin)] \<rparr>"
  by (simp add: aoeInBattle_def inBattle_def handleDragonAttack_def setTimeout_def
        initialSystem_def aoeAtOrigin_fields)

lemma startBattle_fields:
  "isInBattle (startBattle battleReady) \<and> \<not> isDodging (startBattle battleReady)
   \<and> playerPosition (startBattle battleReady) = (0, 0, 0)
   \<and> health (startBattle battleReady) = 180 \<and> \<not> invulnerable (startBattle battleReady)"
  by (simp add: startBattle_def battleReady_fields)

lemma keyHeld_eq:
  "keyHeld = \<lparr> system = aoeInBattle,
       character = initialCharacter\<lparr> movement :=
          \<lparr> move_w = False, move_a = False, move_s = False, move_d = True \<rparr> \<rparr> \<rparr>"
  by (simp add: keyHeld_def keyDown_def aoeInBattle_eq startBattle_fields initialCharacter_def)

lemma walk_frame:
  assumes "0 \<le> x" and "x \<le> 3"
  shows "characterStep clock 0.25
           (keyHeld\<lparr> character := (character keyHeld)\<lparr> meshPosition := (x, y, 0) \<rparr> \<rparr>)
     = keyHeld\<lparr> character := (character keyHeld)
                  \<lparr> meshPosition := (x + 1, sin (clock * 8) * 0.1, 0) \<rparr> \<rparr>"
  using assms
  by (simp add: characterStep_def characterFrame_def Let_def keyHeld_eq aoeInBattle_eq
        startBattle_fields onMove_def initialCharacter_def min_def max_def)

lemma walkedAway_eq:
  "walkedAway = keyHeld\<lparr> character := (character keyHeld)\<lparr> meshPosition := (4, sin 8 * 0.1, 0) \<rparr> \<rparr>"
proof -
  have 0: "keyHeld = keyHeld\<lparr> character := (character keyHeld)\<lparr> meshPosition := (0, 0, 0) \<rparr> \<rparr>"
    by (simp add: keyHeld_eq initialCharacter_def)
  have 1: "characterStep 0.25 0.25 keyHeld
      = keyHeld\<lparr> character := (character keyHeld)\<lparr> meshPosition := (1, sin (0.25 * 8) * 0.1, 0) \<rparr> \<rparr>"
    using walk_frame [of 0 "0.25" 0] 0 by simp
  have 2: "characterStep 0.5 0.25 (characterStep 0.25 0.25 keyHeld)
      = keyHeld\<lparr> character := (character keyHeld)\<lparr> meshPosition := (2, sin (0.5 * 8) * 0.1, 0) \<rparr> \<rparr>"
    unfolding 1 using walk_frame [of 1 "0.5"] by simp
  have 3: "characterStep 0.75 0.25 (characterStep 0.5 0.25 (characterStep 0.25 0.25 keyHeld))
      = keyHeld\<lparr> character := (character keyHeld)\<lparr> meshPosition := (3, sin (0.75 * 8) * 0.1, 0) \<rparr> \<rparr>"
    unfolding 2 using walk_frame [of 2 "0.75"] by simp
  show ?thesis
    unfolding walkedAway_def 3 using walk_frame [of 3 1] by simp
qed

lemma page_reachable_walkedAway: "page_reachable walkedAway"
proof -
  have a: "page_reachable \<lparr> system = aoeInBattle, character = initialCharacter \<rparr>"
    by (rule reachable_page [OF reachable_aoeInBattle])
  have "page_step \<lparr> system = aoeInBattle, character = initialCharacter \<rparr> keyHeld"
    using p_keyDown [of "\<lparr> system = aoeInBattle, character = initialCharacter \<rparr>" KeyD]
    by (simp add: keyHeld_def)
  then have k: "page_reachable keyHeld" using a by (rule page_reachable_step [rotated])
  have f: "page_reachable (characterStep clock 0.25 p)" if "page_reachable p" for clock p
    using that by (rule page_reachable_step) (rule p_frame, simp)
  show ?thesis unfolding walkedAway_def by (intro f k)
qed

lemma sqrt_not_less: "0 < r \<Longrightarrow> \<not> sqrt x < r \<longleftrightarrow> r\<^sup>2 \<le> x"
  using sqrt_less_iff [of r x] by auto

text \<open>
  Claim C4, on the code. In the run below the battle has started and an aoe is launched
  at the origin, where the player stands; the player then walks for one second and is
  four units from the centre when the aoe expires. The claim has the expiry compare the
  player's position of that moment: at more than 3 units no damage is taken. The
  callback compares \<^verbatim>\<open>gameState.playerPosition\<close>, which the empty \<^verbatim>\<open>onMove\<close> never
  updates (and which the callback holds from the render of the launch): it finds the
  distance 0 and takes 25 from the player's health, 180 to 155.
\<close>

theorem aoe_hits_player_who_walked_away:
  "page_reachable walkedAway
   \<and> fst (meshPosition (character walkedAway)) = 4
   \<and> snd (snd (meshPosition (character walkedAway))) = 0
   \<and> target aoeAtOrigin = (0, 0, 0)
   \<and> \<not> planar_distance (meshPosition (character walkedAway)) (target aoeAtOrigin) < 3
   \<and> playerPosition (game (system walkedAway)) = (0, 0, 0)
   \<and> timers (system walkedAway) = [(3000, ExpireAttack (startBattle battleReady) aoeAtOrigin)]
   \<and> health (game (system walkedAway)) = 180
   \<and> health (game (fire (system walkedAway))) = 155
   \<and> page_reachable (walkedAway\<lparr> system := fire (system walkedAway) \<rparr>)"
proof -
  have sys: "system walkedAway = aoeInBattle"
    by (simp add: walkedAway_eq keyHeld_eq)
  have m: "meshPosition (character walkedAway) = (4, sin 8 * 0.1, 0)"
    by (simp add: walkedAway_eq)
  have d: "\<not> planar_distance (meshPosition (character walkedAway)) (target aoeAtOrigin) < 3"
    unfolding m by (simp add: aoeAtOrigin_fields sqrt_not_less)
  have f: "health (game (fire aoeInBattle)) = 155"
    by (simp add: aoeInBattle_eq fire_def Let_def aoeAtOrigin_fields startBattle_fields
          handlePlayerHit_def setTimeout_def hitUpdate_def)
  have "page_step walkedAway (walkedAway\<lparr> system := fire (system walkedAway) \<rparr>)"
    by (rule p_system) (rule s_timer)
  then have r: "page_reachable (walkedAway\<lparr> system := fire (system walkedAway) \<rparr>)"
    using page_reachable_walkedAway by (rule page_reachable_step [rotated])
  show ?thesis
    using page_reachable_walkedAway m d f r
    by (simp add: sys aoeInBattle_eq startBattle_fields aoeAtOrigin_fields)
qed

section \<open>Fireballs and the player's health\<close>

lemma fireball_frames_sys_done: "fireball_frames_sys a clocks True sys = (True, sys)"
  by (induction clocks) (simp_all add: fireball_frame_def)

lemma fireball_frames_sys_find:
  "fireball_frames_sys a clocks False sys =
     (case find (fireball_collides a) clocks of
        None \<Rightarrow> (False, sys)
      | Some t \<Rightarrow> (True, handlePlayerHit (game sys) (t * 1000) (damage a) sys))"
  by (induction clocks) (simp_all add: fireball_frame_def fireball_frames_sys_done)

lemma fireballLate_fields:
  "position fireballLate = (0, 15, -10) \<and> target fireballLate = (0, 0, 0)
   \<and> startTime fireballLate = 1500 \<and> duration fireballLate = 2000
   \<and> damage fireballLate = 20 \<and> attack_type fireballLate = fireball
   \<and> attack_id fireballLate = 1500"
  by (simp add: fireballLate_def newAttack_def patterns_def)

lemma fireballLate_collides:
  "\<not> fireball_collides fireballLate 2 \<and> \<not> fireball_collides fireballLate 3
   \<and> fireball_collides fireballLate 3.3"
proof -
  have "fireball_position fireballLate 3.3 = (0, 3/2, -1)"
    by (simp add: fireball_position_def Let_def fireball_progress_eq fireballLate_fields)
  then have "planar_distance (fireball_position fireballLate 3.3) (target fireballLate) = 1"
    by (simp add: fireballLate_fields)
  then show ?thesis
    by (simp add: fireball_collides_def fireball_progress_eq fireballLate_fields)
qed

lemma fireballLateLaunched_eq:
  "fireballLateLaunched = \<lparr> game = initialGameState, dragonAttacks = [aoeAtOrigin, fireballLate],
       timers = [(3000, ExpireAttack initialGameState aoeAtOrigin),
                 (3500, ExpireAttack initialGameState fireballLate)] \<rparr>"
  by (simp add: fireballLateLaunched_def aoeLaunched_eq handleDragonAttack_def setTimeout_def
        fireballLate_fields)

lemma aoeHit_state:
  "aoeHit = \<lparr> game = initialGameState\<lparr> health := 75, invulnerable := True \<rparr>,
       dragonAttacks = [fireballLate],
       timers = [(3500, ExpireAttack initialGameState fireballLate), (4000, ResetInvulnerable)] \<rparr>"
  unfolding aoeHit_def fireballLateLaunched_eq
  by (simp add: fire_def Let_def aoeAtOrigin_fields fireballLate_fields handlePlayerHit_def
        setTimeout_def hitUpdate_def initialGameState_def)

lemma reachable_aoeHit: "reachable aoeHit"
proof -
  have 1: "reachable aoeLaunched"
    unfolding aoeLaunched_def aoeAtOrigin_def
    using r_dragon [OF r_init, of "0.5" 0 2 "(0, 15, -10)" 0 0]
    by (simp add: initialSystem_def initialGameState_def)
  have "playerPosition (game aoeLaunched) = (0, 0, 0)"
    by (simp add: aoeLaunched_eq initialGameState_def)
  then have 2: "reachable fireballLateLaunched"
    unfolding fireballLateLaunched_def fireballLate_def
    using r_dragon [OF 1, of 0 1500 0 "(0, 15, -10)" "1.5" 1500]
    by simp
  show ?thesis unfolding aoeHit_def using r_timer [OF 2] .
qed

text \<open>
  Claim C5, as stated, fails: a fireball can be resolved without its damage being
  applied. In the run below the aoe launched at 0 ms expires at 3000 ms and hits the
  player (health 100 to 75, invulnerable until 4000 ms); the fireball launched at
  1500 ms meets the condition at its frame at 3.3 s, calls \<^verbatim>\<open>onHit\<close> once and is no
  longer drawn, yet \<^verbatim>\<open>handlePlayerHit\<close> ignores the hit and the state is unchanged.
\<close>

theorem fireball_resolves_without_damage:
  "reachable aoeHit
   \<and> fireballLate \<in> set (dragonAttacks aoeHit)
   \<and> attack_type fireballLate = fireball
   \<and> find (fireball_collides fireballLate) [2, 3, 3.3] = Some 3.3
   \<and> fireball_frames fireballLate [2, 3, 3.3] False = (True, [(3.3, damage fireballLate)])
   \<and> health (game aoeHit) = 75
   \<and> fireball_frames_sys fireballLate [2, 3, 3.3] False aoeHit = (True, aoeHit)"
proof -
  have f: "find (fireball_collides fireballLate) [2, 3, 3.3] = Some 3.3"
    using fireballLate_collides by simp
  have inv: "invulnerable (game aoeHit)" by (simp add: aoeHit_state)
  have "fireball_frames_sys fireballLate [2, 3, 3.3] False aoeHit
          = (True, handlePlayerHit (game aoeHit) (3.3 * 1000) (damage fireballLate) aoeHit)"
    unfolding fireball_frames_sys_find f by simp
  then have s: "fireball_frames_sys fireballLate [2, 3, 3.3] False aoeHit = (True, aoeHit)"
    using inv by (simp add: handlePlayerHit_def)
  have c: "fireball_frames fireballLate [2, 3, 3.3] False = (True, [(3.3, damage fireballLate)])"
    unfolding fireball_frames_find f by simp
  have m: "fireballLate \<in> set (dragonAttacks aoeHit)" by (simp add: aoeHit_state)
  have h: "health (game aoeHit) = 75" by (simp add: aoeHit_state)
  have t: "attack_type fireballLate = fireball" by (simp add: fireballLate_fields)
  show ?thesis by (intro conjI reachable_aoeHit m t f c h s)
qed


text \<open>
  Claim C5, amended. Over the frames of a fireball, in order and with a render between
  frames: \<^verbatim>\<open>onHit\<close> is called exactly once, with the attack's damage, at the first frame
  whose progress exceeds 0.8 while the projectile is less than 1.5 units (in the plane)
  from the target, and from then on the projectile is not drawn. That call takes the
  damage from the player's health, stopping at 0, unless the player is invulnerable at
  that frame: then the hit is ignored and the state is unchanged. When no frame meets
  the condition, \<^verbatim>\<open>onHit\<close> is never called, the state is unchanged and the projectile
  stays drawn. Progress is the elapsed share of the duration, at most 1, and the
  position is the point that far along the line from origin to target: the origin at the
  start, the target at the end.
\<close>

theorem fireball_resolution:
  "fireball_frames a clocks False =
     (case find (fireball_collides a) clocks of
        None \<Rightarrow> (False, [])
      | Some t \<Rightarrow> (True, [(t, damage a)]))
   \<and> fireball_rendered (fst (fireball_frames a clocks False))
       = (\<forall>clock \<in> set clocks. \<not> fireball_collides a clock)
   \<and> fireball_frames a clocks True = (True, [])
   \<and> fireball_collides a clock =
       (fireball_progress a clock > 0.8
        \<and> planar_distance (fireball_position a clock) (target a) < 1.5)
   \<and> fireball_progress a clock = min ((clock * 1000 - startTime a) / duration a) 1
   \<and> fireball_position a clock =
        (fst (position a) + (fst (target a) - fst (position a)) * fireball_progress a clock,
         fst (snd (position a))
           + (fst (snd (target a)) - fst (snd (position a))) * fireball_progress a clock,
         snd (snd (position a))
           + (snd (snd (target a)) - snd (snd (position a))) * fireball_progress a clock)
   \<and> (0 < duration a \<longrightarrow> fireball_position a (startTime a / 1000) = position a
         \<and> fireball_position a ((startTime a + duration a) / 1000) = target a)
   \<and> fireball_frames_sys a clocks False sys =
       (case find (fireball_collides a) clocks of
          None \<Rightarrow> (False, sys)
        | Some t \<Rightarrow> (True, handlePlayerHit (game sys) (t * 1000) (damage a) sys))
   \<and> fireball_frames_sys a clocks True sys = (True, sys)
   \<and> health (game (handlePlayerHit (game sys) now (damage a) sys)) =
       (if invulnerable (game sys) then health (game sys)
        else max 0 (health (game sys) - damage a))
   \<and> (invulnerable (game sys) \<longrightarrow> handlePlayerHit (game sys) now (damage a) sys = sys)"
proof -
  have r: "fireball_rendered (fst (fireball_frames a clocks False))
       = (\<forall>clock \<in> set clocks. \<not> fireball_collides a clock)"
  proof (cases "find (fireball_collides a) clocks")
    case None
    then have "fireball_frames a clocks False = (False, [])"
      by (simp add: fireball_frames_find)
    moreover have "\<forall>clock \<in> set clocks. \<not> fireball_collides a clock"
      using None by (simp add: find_None_iff)
    ultimately show ?thesis
      by (simp add: fireball_rendered_def)
  next
    case (Some t)
    then have t: "t \<in> set clocks \<and> fireball_collides a t"
      by (auto simp: find_Some_iff)
    have "fireball_frames a clocks False = (True, [(t, damage a)])"
      using Some by (simp add: fireball_frames_find)
    then show ?thesis
      using t by (auto simp: fireball_rendered_def)
  qed
  have c: "fireball_collides a clock =
       (fireball_progress a clock > 0.8
        \<and> planar_distance (fireball_position a clock) (target a) < 1.5)"
    by (auto simp: fireball_collides_def)
  have p: "fireball_position a clock =
        (fst (position a) + (fst (target a) - fst (position a)) * fireball_progress a clock,
         fst (snd (position a))
           + (fst (snd (target a)) - fst (snd (position a))) * fireball_progress a clock,
         snd (snd (position a))
           + (snd (snd (target a)) - snd (snd (position a))) * fireball_progress a clock)"
    by (cases "position a"; cases "target a") (simp add: fireball_position_def Let_def)
  have h: "health (game (handlePlayerHit (game sys) now (damage a) sys)) =
       (if invulnerable (game sys) then health (game sys)
        else max 0 (health (game sys) - damage a))"
    by (simp add: handlePlayerHit_def setTimeout_def hitUpdate_def)
  have i: "invulnerable (game sys) \<longrightarrow> handlePlayerHit (game sys) now (damage a) sys = sys"
    by (simp add: handlePlayerHit_def)
  show ?thesis
    by (intro conjI fireball_frames_find r fireball_frames_done c fireball_progress_eq p
          impI [OF fireball_position_ends] fireball_frames_sys_find fireball_frames_sys_done h i)
qed

theorem fireball_resolution_witness:
  "0 < duration fireballAtOrigin
   \<and> fireball_frames fireballAtOrigin [1.5, 2, 2.8, 2.9] False = (True, [(2.8, 20)])
   \<and> fireball_frames fireballAtOrigin [1.5, 2] False = (False, [])
   \<and> fireball_position fireballAtOrigin 1 = (0, 15, -10)
   \<and> fireball_position fireballAtOrigin 3 = (0, 0, 0)
   \<and> \<not> invulnerable (game fireballLaunched)
   \<and> health (game fireballLaunched) = 100
   \<and> health (game (snd (fireball_frames_sys fireballAtOrigin [1.5, 2, 2.8, 2.9] False
                          fireballLaunched))) = 80
   \<and> fireball_frames_sys fireballAtOrigin [1.5, 2] False fireballLaunched
       = (False, fireballLaunched)
   \<and> invulnerable (game aoeHit)
   \<and> fireball_frames_sys fireballLate [2, 3, 3.3] False aoeHit = (True, aoeHit)"
proof -
  note T = fireball_resolution [of fireballAtOrigin "[1.5, 2, 2.8, 2.9]" 1 fireballLaunched 2800]
  note U = fireball_resolution [of fireballAtOrigin "[1.5, 2]" 3 fireballLaunched 2800]
  note V = fireball_resolution [of fireballLate "[2, 3, 3.3]" 3 aoeHit 3300]
  have f1: "find (fireball_collides fireballAtOrigin) [1.5, 2, 2.8, 2.9] = Some 2.8"
    using fireballAtOrigin_collides by simp
  have f2: "find (fireball_collides fireballAtOrigin) [1.5, 2] = None"
    using fireballAtOrigin_collides by simp
  have f3: "find (fireball_collides fireballLate) [2, 3, 3.3] = Some 3.3"
    using fireballLate_collides by simp
  have d: "0 < duration fireballAtOrigin" by (simp add: fireballAtOrigin_fields)
  have w1: "fireball_frames fireballAtOrigin [1.5, 2, 2.8, 2.9] False = (True, [(2.8, 20)])"
    using T [THEN conjunct1] unfolding f1 by (simp add: fireballAtOrigin_fields)
  have w2: "fireball_frames fireballAtOrigin [1.5, 2] False = (False, [])"
    using U [THEN conjunct1] unfolding f2 by simp
  have ends: "fireball_position fireballAtOrigin (startTime fireballAtOrigin / 1000)
        = position fireballAtOrigin
      \<and> fireball_position fireballAtOrigin
          ((startTime fireballAtOrigin + duration fireballAtOrigin) / 1000)
        = target fireballAtOrigin"
    using T d by blast
  have w3: "fireball_position fireballAtOrigin 1 = (0, 15, -10)"
    using ends by (simp add: fireballAtOrigin_fields)
  have w4: "fireball_position fireballAtOrigin 3 = (0, 0, 0)"
    using ends by (simp add: fireballAtOrigin_fields)
  have v: "\<not> invulnerable (game fireballLaunched) \<and> health (game fireballLaunched) = 100"
    by (simp add: fireballLaunched_eq initialGameState_def)
  have "fireball_frames_sys fireballAtOrigin [1.5, 2, 2.8, 2.9] False fireballLaunched
      = (True, handlePlayerHit (game fireballLaunched) (2.8 * 1000) (damage fireballAtOrigin)
                 fireballLaunched)"
    using T unfolding f1 by simp
  moreover have "health (game (handlePlayerHit (game fireballLaunched) 2800
                    (damage fireballAtOrigin) fireballLaunched)) = 80"
    using T v by (simp add: fireballAtOrigin_fields)
  ultimately have w5: "health (game (snd (fireball_frames_sys fireballAtOrigin
        [1.5, 2, 2.8, 2.9] False fireballLaunched))) = 80"
    by simp
  have w6: "fireball_frames_sys fireballAtOrigin [1.5, 2] False fireballLaunched
       = (False, fireballLaunched)"
    using U unfolding f2 by simp
  have inv: "invulnerable (game aoeHit)" by (simp add: aoeHit_state)
  have "handlePlayerHit (game aoeHit) 3300 (damage fireballLate) aoeHit = aoeHit"
    using V inv by blast
  moreover have "fireball_frames_sys fireballLate [2, 3, 3.3] False aoeHit
      = (True, handlePlayerHit (game aoeHit) (3.3 * 1000) (damage fireballLate) aoeHit)"
    using V unfolding f3 by simp
  ultimately have w7: "fireball_frames_sys fireballLate [2, 3, 3.3] False aoeHit = (True, aoeHit)"
    by simp
  show ?thesis
    using v by (intro conjI d w1 w2 w3 w4 w5 w6 inv w7) simp_all
qed

end
